theory Spec2Isabelle
  imports Main "HOL-Library.Char_ord" "HOL-Library.List_Lexorder"
begin

section \<open>Errors\<close>

text \<open>
  The service package declares four error values (\<^verbatim>\<open>ErrSignatureNotFound\<close>,
  \<^verbatim>\<open>ErrSignatureNilInput\<close>, \<^verbatim>\<open>ErrSignatureDuplicate\<close>, \<^verbatim>\<open>ErrSignaturePoolEmpty\<close>).
  Every other error comes from the database driver. The repository passes a driver error
  through \<^verbatim>\<open>translatePersistenceError(err, ErrSignatureNotFound, nil)\<close>, a function that is not
  among the sources; the repository functions below therefore take the translation as a
  parameter \<open>tr\<close>, and nothing proved here depends on what it returns.
\<close>

datatype db_error = NoRows | UniqueViolation | CheckViolation | Unavailable

datatype error =
    ErrSignatureNotFound
  | ErrSignatureNilInput
  | ErrSignatureDuplicate
  | ErrSignaturePoolEmpty
  | ErrOther db_error

section \<open>Go slices over an explicit store\<close>

text \<open>
  A Go slice is a triple of a pointer to a backing array, a length and a capacity. Two
  slices alias when they point to the same array, so arrays live in an explicit store with
  an allocation counter. \<^verbatim>\<open>append\<close> writes in place while the capacity allows and moves to
  a fresh, larger array otherwise; the new capacity is chosen by the runtime
  (\<^verbatim>\<open>growslice\<close>) and is a parameter \<open>g\<close> here (old capacity, needed length), raised to
  the needed length where \<open>g\<close> would answer less.
\<close>

type_synonym addr = nat

record slice =
  sl_array :: addr
  sl_len :: nat
  sl_cap :: nat

record heap =
  h_arrays :: "addr \<rightharpoonup> string list"
  h_next :: addr

definition slice_contents :: "heap \<Rightarrow> slice \<Rightarrow> string list" where
  "slice_contents h s =
     (case h_arrays h (sl_array s) of None \<Rightarrow> [] | Some a \<Rightarrow> take (sl_len s) a)"

definition go_make :: "heap \<Rightarrow> nat \<Rightarrow> nat \<Rightarrow> slice \<times> heap" where
  "go_make h n k =
     (\<lparr>sl_array = h_next h, sl_len = n, sl_cap = k\<rparr>,
      h\<lparr>h_arrays := (h_arrays h)(h_next h \<mapsto> replicate k []), h_next := Suc (h_next h)\<rparr>)"

definition go_append :: "(nat \<Rightarrow> nat \<Rightarrow> nat) \<Rightarrow> heap \<Rightarrow> slice \<Rightarrow> string \<Rightarrow> slice \<times> heap" where
  "go_append g h s x =
     (case h_arrays h (sl_array s) of
        None \<Rightarrow> (s, h)
      | Some a \<Rightarrow>
          if sl_len s < sl_cap s
          then (s\<lparr>sl_len := Suc (sl_len s)\<rparr>,
                h\<lparr>h_arrays := (h_arrays h)(sl_array s \<mapsto> a[sl_len s := x])\<rparr>)
          else
            (let k = max (g (sl_cap s) (Suc (sl_len s))) (Suc (sl_len s));
                 b = take (sl_len s) a @ [x] @ replicate (k - Suc (sl_len s)) []
             in (\<lparr>sl_array = h_next h, sl_len = Suc (sl_len s), sl_cap = k\<rparr>,
                 h\<lparr>h_arrays := (h_arrays h)(h_next h \<mapsto> b), h_next := Suc (h_next h)\<rparr>)))"

definition go_copy :: "heap \<Rightarrow> slice \<Rightarrow> slice \<Rightarrow> heap" where
  "go_copy h dst src =
     (case h_arrays h (sl_array dst) of
        None \<Rightarrow> h
      | Some a \<Rightarrow>
          (let n = min (sl_len dst) (sl_len src)
           in h\<lparr>h_arrays := (h_arrays h)(sl_array dst \<mapsto> take n (slice_contents h src) @ drop n a)\<rparr>))"

text \<open>Assignment \<^verbatim>\<open>s[i] = x\<close>; an index outside the length panics (\<open>None\<close>).\<close>

definition slice_set :: "heap \<Rightarrow> slice \<Rightarrow> nat \<Rightarrow> string \<Rightarrow> heap option" where
  "slice_set h s i x =
     (case h_arrays h (sl_array s) of
        None \<Rightarrow> None
      | Some a \<Rightarrow>
          if i < sl_len s
          then Some (h\<lparr>h_arrays := (h_arrays h)(sl_array s \<mapsto> a[i := x])\<rparr>)
          else None)"

text \<open>A slice is well formed in a store when its array is allocated and has its capacity.\<close>

definition slice_ok :: "heap \<Rightarrow> slice \<Rightarrow> bool" where
  "slice_ok h s =
     (sl_array s < h_next h \<and> sl_len s \<le> sl_cap s \<and>
      (case h_arrays h (sl_array s) of None \<Rightarrow> False | Some a \<Rightarrow> length a = sl_cap s))"

section \<open>Signature collector\<close>

text \<open>
  \<^verbatim>\<open>SignatureCollector.Collect\<close> is named \<open>CollectSig\<close> here, \<open>Collect\<close> being the
  set comprehension of HOL. Go's \<^verbatim>\<open>len\<close> of a string counts bytes, as \<open>length\<close> does on
  a \<open>string\<close>.
\<close>

record SignatureCollector =
  signatures :: slice
  minLength :: int
  col_accountID :: int
  col_model :: "string option"

definition NewSignatureCollector :: "heap \<Rightarrow> int \<Rightarrow> string option \<Rightarrow> int \<Rightarrow> SignatureCollector \<times> heap" where
  "NewSignatureCollector h accountID model minLen =
     (let m = (if minLen \<le> 0 then 350 else minLen);
          (s, h') = go_make h 0 0
      in (\<lparr>signatures = s, minLength = m, col_accountID = accountID, col_model = model\<rparr>, h'))"

definition CollectSig :: "(nat \<Rightarrow> nat \<Rightarrow> nat) \<Rightarrow> SignatureCollector \<Rightarrow> string \<Rightarrow> heap \<Rightarrow> SignatureCollector \<times> heap" where
  "CollectSig g c signature h =
     (if int (length signature) \<le> minLength c then (c, h)
      else (let (s, h') = go_append g h (signatures c) signature
            in (c\<lparr>signatures := s\<rparr>, h')))"

definition GetCollected :: "SignatureCollector \<Rightarrow> heap \<Rightarrow> slice \<times> heap" where
  "GetCollected c h =
     (let (result, h1) = go_make h (sl_len (signatures c)) (sl_len (signatures c))
      in (result, go_copy h1 result (signatures c)))"

definition Count :: "SignatureCollector \<Rightarrow> int" where
  "Count c = int (sl_len (signatures c))"

section \<open>The SSE data prefix\<close>

text \<open>
  \<^verbatim>\<open>sseDataRegex\<close> is \<^verbatim>\<open>^data:\s*\<close>. It is anchored at the start of the text, so it matches
  at most once, and \<^verbatim>\<open>\s\<close> is the class of tab, newline, form feed, carriage return and
  space.
\<close>

definition is_space :: "char \<Rightarrow> bool" where
  "is_space c = (c = CHR 0x09 \<or> c = CHR 0x0A \<or> c = CHR 0x0C \<or> c = CHR 0x0D \<or> c = CHR '' '')"

definition sseDataRegex_MatchString :: "string \<Rightarrow> bool" where
  "sseDataRegex_MatchString line = (take 5 line = ''data:'')"

definition sseDataRegex_ReplaceAllString :: "string \<Rightarrow> string" where
  "sseDataRegex_ReplaceAllString line =
     (if sseDataRegex_MatchString line then dropWhile is_space (drop 5 line) else line)"

section \<open>JSON encoding\<close>

text \<open>
  \<^verbatim>\<open>json.Marshal\<close> on the values the processor builds: strings, integers and
  \<^verbatim>\<open>map[string]any\<close>. A Go map has no order of its own; the encoder writes the members of
  a map sorted by key (byte-wise), without white space. Strings are written by the
  encoder's \<^verbatim>\<open>appendString\<close> with HTML escaping on, as of Go 1.22 (which writes backspace
  and form feed as \<^verbatim>\<open>\b\<close> and \<^verbatim>\<open>\f\<close>): quote and backslash are escaped by a backslash,
  control characters and \<^verbatim>\<open><\<close>, \<^verbatim>\<open>>\<close>, \<^verbatim>\<open>&\<close> by their code, bytes that are not valid
  UTF-8 become \<^verbatim>\<open>\ufffd\<close>, and the two separators U+2028 and U+2029 are escaped.
\<close>

definition hex_digit :: "nat \<Rightarrow> char" where
  "hex_digit n = ''0123456789abcdef'' ! (n mod 16)"

fun digits :: "nat \<Rightarrow> string" where
  "digits n = (if n < 10 then [hex_digit n] else digits (n div 10) @ [hex_digit (n mod 10)])"

text \<open>
  \<open>digits\<close> writes a natural number in decimal (the first ten entries of the digit table),
  \<^verbatim>\<open>strconv.Itoa\<close> an integer, as the encoder writes a Go \<^verbatim>\<open>int\<close>.
\<close>

declare digits.simps [simp del]

definition strconv_Itoa :: "int \<Rightarrow> string" where
  "strconv_Itoa i = (if i < 0 then CHR ''-'' # digits (nat (- i)) else digits (nat i))"

definition byte :: "char \<Rightarrow> nat" where
  "byte c = of_char c"

definition cont :: "char \<Rightarrow> bool" where
  "cont c = (0x80 \<le> byte c \<and> byte c \<le> 0xBF)"

text \<open>
  The number of bytes of the UTF-8 sequence at the head of a string, as
  \<^verbatim>\<open>utf8.DecodeRuneInString\<close> accepts it; \<open>0\<close> where the bytes are not a valid encoding
  (the decoder then answers \<^verbatim>\<open>RuneError\<close> with size 1).
\<close>

fun rune_size :: "string \<Rightarrow> nat" where
  "rune_size [] = 0"
| "rune_size (a # s) =
     (let x = byte a in
      if x < 0x80 then 1
      else if 0xC2 \<le> x \<and> x \<le> 0xDF then
        (case s of b # _ \<Rightarrow> if cont b then 2 else 0 | _ \<Rightarrow> 0)
      else if 0xE0 \<le> x \<and> x \<le> 0xEF then
        (case s of b # c # _ \<Rightarrow>
           if (if x = 0xE0 then 0xA0 \<le> byte b \<and> byte b \<le> 0xBF
               else if x = 0xED then 0x80 \<le> byte b \<and> byte b \<le> 0x9F
               else cont b) \<and> cont c
           then 3 else 0
         | _ \<Rightarrow> 0)
      else if 0xF0 \<le> x \<and> x \<le> 0xF4 then
        (case s of b # c # d # _ \<Rightarrow>
           if (if x = 0xF0 then 0x90 \<le> byte b \<and> byte b \<le> 0xBF
               else if x = 0xF4 then 0x80 \<le> byte b \<and> byte b \<le> 0x8F
               else cont b) \<and> cont c \<and> cont d
           then 4 else 0
         | _ \<Rightarrow> 0)
      else 0)"

fun escape_bytes :: "string \<Rightarrow> string" where
  "escape_bytes [] = []"
| "escape_bytes (a # s) =
     (let x = byte a in
      if x < 0x80 then
        (if a = CHR 0x5C \<or> a = CHR 0x22 then [CHR 0x5C, a] @ escape_bytes s
         else if a = CHR 0x08 then (CHR 0x5C # ''b'') @ escape_bytes s
         else if a = CHR 0x0C then (CHR 0x5C # ''f'') @ escape_bytes s
         else if a = CHR 0x0A then (CHR 0x5C # ''n'') @ escape_bytes s
         else if a = CHR 0x0D then (CHR 0x5C # ''r'') @ escape_bytes s
         else if a = CHR 0x09 then (CHR 0x5C # ''t'') @ escape_bytes s
         else if x < 0x20 \<or> a = CHR ''<'' \<or> a = CHR ''>'' \<or> a = CHR ''&'' then
           (CHR 0x5C # ''u00'') @ [hex_digit (x div 16), hex_digit (x mod 16)] @ escape_bytes s
         else a # escape_bytes s)
      else
        (let n = rune_size (a # s) in
         if n = 0 then (CHR 0x5C # ''ufffd'') @ escape_bytes s
         else if n = 3 \<and> take 2 s = [CHR 0x80, CHR 0xA8] \<and> a = CHR 0xE2 then
           (CHR 0x5C # ''u2028'') @ escape_bytes (drop 2 s)
         else if n = 3 \<and> take 2 s = [CHR 0x80, CHR 0xA9] \<and> a = CHR 0xE2 then
           (CHR 0x5C # ''u2029'') @ escape_bytes (drop 2 s)
         else a # take (n - 1) s @ escape_bytes (drop (n - 1) s)))"

definition appendString :: "string \<Rightarrow> string" where
  "appendString s = [CHR 0x22] @ escape_bytes s @ [CHR 0x22]"

datatype json = JString string | JInt int | JMap "(string \<times> json) list"

text \<open>
  A map literal is given as its list of entries (with distinct keys); the encoder sorts
  them. The encoder returns no error on these values; the result is an option so that the
  error branch of the caller stays in the model.
\<close>

fun members :: "(string \<times> string) list \<Rightarrow> string" where
  "members [] = []"
| "members [(k, e)] = appendString k @ '':'' @ e"
| "members ((k, e) # kes) = appendString k @ '':'' @ e @ '','' @ members kes"

fun encode :: "json \<Rightarrow> string" where
  "encode (JString s) = appendString s"
| "encode (JInt i) = strconv_Itoa i"
| "encode (JMap kvs) =
     ''{'' @ members (sort_key fst (map (\<lambda>(k, v). (k, encode v)) kvs)) @ ''}''"

definition json_Marshal :: "json \<Rightarrow> string option" where
  "json_Marshal v = Some (encode v)"

section \<open>Stream processor\<close>

record SignaturePoolFilter =
  Models :: "string list"

record SignatureConfig =
  Enabled :: bool
  Strategy :: string
  PoolFilter :: "SignaturePoolFilter option"
  EnableCollection :: bool
  MinLength :: int

record ThinkingBlockState =
  Index :: int
  Started :: bool
  HasSignatureDelta :: bool
  ReceivedSignature :: string
  Stopped :: bool

text \<open>
  The three anonymous structs that \<^verbatim>\<open>json.Unmarshal\<close> fills: the event (with its raw
  \<^verbatim>\<open>delta\<close> and \<^verbatim>\<open>content_block\<close> members), the content block and the delta.
\<close>

record sse_event =
  ev_Type :: string
  ev_Index :: int
  ev_Delta :: string
  ev_ContentBlock :: string

record content_block =
  cb_Type :: string
  cb_Thinking :: string
  cb_Signature :: string

record delta =
  d_Type :: string
  d_Signature :: string

text \<open>
  What the processor calls and does not define: the decoder of \<^verbatim>\<open>encoding/json\<close> at the
  three struct types (\<open>None\<close> for a decoding error), \<^verbatim>\<open>sjson.Set\<close> (data, path, value;
  \<open>None\<close> for an error), the pool behind the interface \<^verbatim>\<open>SignaturePoolService\<close>, whose
  state has type \<open>'p\<close> and whose \<^verbatim>\<open>GetRandomSignature\<close> returns the pair of a string and
  an error, and the capacity rule of \<^verbatim>\<open>append\<close>. The theorems on the processor hold for
  every such environment. The processor is built with a configuration and a pool that
  are not nil; the collector may be nil. The state of the processor carries, as \<open>mem\<close>,
  the store in which the slice of its collector lives.
\<close>

record 'p runtime =
  Unmarshal_event :: "string \<Rightarrow> sse_event option"
  Unmarshal_content_block :: "string \<Rightarrow> content_block option"
  Unmarshal_delta :: "string \<Rightarrow> delta option"
  sjson_Set :: "string \<Rightarrow> string \<Rightarrow> string \<Rightarrow> string option"
  pool_GetRandomSignature :: "'p \<Rightarrow> SignaturePoolFilter option \<Rightarrow> (string \<times> error option) \<times> 'p"
  growslice :: "nat \<Rightarrow> nat \<Rightarrow> nat"

record 'p SignatureStreamState =
  thinkingBlocks :: "int \<rightharpoonup> ThinkingBlockState"
  config :: SignatureConfig
  signaturePool :: 'p
  collector :: "SignatureCollector option"
  accountID :: int
  mem :: heap

definition NewSignatureStreamState ::
  "heap \<Rightarrow> SignatureConfig \<Rightarrow> 'p \<Rightarrow> int \<Rightarrow> SignatureCollector option \<Rightarrow> 'p SignatureStreamState" where
  "NewSignatureStreamState h cfg pool acct col =
     \<lparr>thinkingBlocks = Map.empty, config = cfg, signaturePool = pool, collector = col,
      accountID = acct, mem = h\<rparr>"

definition handleContentBlockStart ::
  "'p runtime \<Rightarrow> 'p SignatureStreamState \<Rightarrow> string \<Rightarrow> string \<Rightarrow> int \<Rightarrow> string
     \<Rightarrow> string \<times> 'p SignatureStreamState" where
  "handleContentBlockStart R s line data index contentBlockRaw =
     (case Unmarshal_content_block R contentBlockRaw of
        None \<Rightarrow> (line, s)
      | Some contentBlock \<Rightarrow>
          if cb_Type contentBlock \<noteq> ''thinking'' then (line, s)
          else (line,
                s\<lparr>thinkingBlocks := (thinkingBlocks s)(index \<mapsto>
                     \<lparr>Index = index, Started = True, HasSignatureDelta = False,
                      ReceivedSignature = [], Stopped = False\<rparr>)\<rparr>))"

definition replaceSignatureInLine ::
  "'p runtime \<Rightarrow> 'p SignatureStreamState \<Rightarrow> string \<Rightarrow> int \<Rightarrow> string \<times> 'p SignatureStreamState" where
  "replaceSignatureInLine R s line index =
     (let ((signature, err), p) = pool_GetRandomSignature R (signaturePool s) (PoolFilter (config s));
          s' = s\<lparr>signaturePool := p\<rparr>
      in if err \<noteq> None \<or> signature = [] then (line, s')
         else (let data = sseDataRegex_ReplaceAllString line
               in case sjson_Set R data ''delta.signature'' signature of
                    None \<Rightarrow> (line, s')
                  | Some newData \<Rightarrow> (''data: '' @ newData, s')))"

definition generateSignatureDeltaLine ::
  "'p runtime \<Rightarrow> 'p SignatureStreamState \<Rightarrow> int \<Rightarrow> string \<times> 'p SignatureStreamState" where
  "generateSignatureDeltaLine R s index =
     (let ((signature, err), p) = pool_GetRandomSignature R (signaturePool s) (PoolFilter (config s));
          s' = s\<lparr>signaturePool := p\<rparr>
      in if err \<noteq> None \<or> signature = [] then ([], s')
         else (let event = JMap [(''type'', JString ''content_block_delta''),
                                 (''index'', JInt index),
                                 (''delta'', JMap [(''type'', JString ''signature_delta''),
                                                   (''signature'', JString signature)])]
               in case json_Marshal event of
                    None \<Rightarrow> ([], s')
                  | Some data \<Rightarrow> (''data: '' @ data, s')))"

definition handleContentBlockDelta ::
  "'p runtime \<Rightarrow> 'p SignatureStreamState \<Rightarrow> string \<Rightarrow> string \<Rightarrow> int \<Rightarrow> string
     \<Rightarrow> string \<times> 'p SignatureStreamState" where
  "handleContentBlockDelta R s line data index deltaRaw =
     (case Unmarshal_delta R deltaRaw of
        None \<Rightarrow> (line, s)
      | Some dl \<Rightarrow>
          if d_Type dl \<noteq> ''signature_delta'' then (line, s)
          else
            (let s1 =
               (case thinkingBlocks s index of
                  None \<Rightarrow> s
                | Some block \<Rightarrow>
                    (let s' = s\<lparr>thinkingBlocks := (thinkingBlocks s)(index \<mapsto>
                                  block\<lparr>HasSignatureDelta := True,
                                        ReceivedSignature := d_Signature dl\<rparr>)\<rparr>
                     in case collector s' of
                          None \<Rightarrow> s'
                        | Some c \<Rightarrow>
                            if d_Signature dl \<noteq> [] then
                              (let (c', h') = CollectSig (growslice R) c (d_Signature dl) (mem s')
                               in s'\<lparr>collector := Some c', mem := h'\<rparr>)
                            else s'))
             in if Strategy (config s1) = ''always_replace'' then replaceSignatureInLine R s1 line index
                else if Strategy (config s1) = ''fill_missing'' then (line, s1)
                else (line, s1)))"

definition handleContentBlockStop ::
  "'p runtime \<Rightarrow> 'p SignatureStreamState \<Rightarrow> string \<Rightarrow> int
     \<Rightarrow> (string \<times> string list) \<times> 'p SignatureStreamState" where
  "handleContentBlockStop R s line index =
     (case thinkingBlocks s index of
        None \<Rightarrow> ((line, []), s)
      | Some block \<Rightarrow>
          (let s1 = s\<lparr>thinkingBlocks := (thinkingBlocks s)(index \<mapsto> block\<lparr>Stopped := True\<rparr>)\<rparr>;
               needsInjection =
                 (if Strategy (config s) = ''always_replace'' then \<not> HasSignatureDelta block
                  else if Strategy (config s) = ''fill_missing'' then \<not> HasSignatureDelta block
                  else False)
           in if needsInjection then
                (let (injectedLine, s2) = generateSignatureDeltaLine R s1 index
                 in if injectedLine \<noteq> [] then ((line, [injectedLine]), s2)
                    else ((line, []), s2))
              else ((line, []), s1)))"

text \<open>
  \<^verbatim>\<open>ProcessSSELine\<close> returns the line, the extra lines (nil is the empty list) and the
  error, here together with the state after the call.
\<close>

definition ProcessSSELine ::
  "'p runtime \<Rightarrow> 'p SignatureStreamState \<Rightarrow> string
     \<Rightarrow> (string \<times> string list \<times> error option) \<times> 'p SignatureStreamState" where
  "ProcessSSELine R s line =
     (if \<not> sseDataRegex_MatchString line then ((line, [], None), s)
      else
        (let data = sseDataRegex_ReplaceAllString line
         in if data = [] \<or> data = ''[DONE]'' then ((line, [], None), s)
            else
              (case Unmarshal_event R data of
                 None \<Rightarrow> ((line, [], None), s)
               | Some event \<Rightarrow>
                   if ev_Type event = ''content_block_start'' then
                     (let (modifiedLine, s') =
                            handleContentBlockStart R s line data (ev_Index event) (ev_ContentBlock event)
                      in ((modifiedLine, [], None), s'))
                   else if ev_Type event = ''content_block_delta'' then
                     (let (modifiedLine, s') =
                            handleContentBlockDelta R s line data (ev_Index event) (ev_Delta event)
                      in ((modifiedLine, [], None), s'))
                   else if ev_Type event = ''content_block_stop'' then
                     (let ((modifiedLine, extraLines), s') =
                            handleContentBlockStop R s line (ev_Index event)
                      in ((modifiedLine, extraLines, None), s'))
                   else ((line, [], None), s))))"

section \<open>Streams\<close>

text \<open>
  A stream is a list of lines given to \<^verbatim>\<open>ProcessSSELine\<close> one after the other; \<open>run\<close>
  is the state of the processor after them. \<open>event_at\<close> is the event that
  \<^verbatim>\<open>ProcessSSELine\<close> decodes from a line, if any. A line opens a thinking block at an
  index when it is a \<^verbatim>\<open>content_block_start\<close> at the index whose content block has the type
  \<^verbatim>\<open>thinking\<close>, and it carries a signature when it is a \<^verbatim>\<open>content_block_delta\<close> at the
  index whose delta has the type \<^verbatim>\<open>signature_delta\<close>.

  \<open>tracked_since R i lines\<close> reads the stream back from its end to the last line that
  opened a thinking block at \<open>i\<close>: it is \<open>None\<close> when there is no such line, and
  otherwise tells whether a line after it carried a signature at \<open>i\<close>.
\<close>

definition event_at :: "'p runtime \<Rightarrow> string \<Rightarrow> sse_event option" where
  "event_at R line =
     (if sseDataRegex_MatchString line \<and> sseDataRegex_ReplaceAllString line \<noteq> [] \<and>
         sseDataRegex_ReplaceAllString line \<noteq> ''[DONE]''
      then Unmarshal_event R (sseDataRegex_ReplaceAllString line) else None)"

definition opens_thinking :: "'p runtime \<Rightarrow> int \<Rightarrow> string \<Rightarrow> bool" where
  "opens_thinking R i line =
     (case event_at R line of
        None \<Rightarrow> False
      | Some ev \<Rightarrow>
          ev_Type ev = ''content_block_start'' \<and> ev_Index ev = i \<and>
          (case Unmarshal_content_block R (ev_ContentBlock ev) of
             None \<Rightarrow> False | Some cb \<Rightarrow> cb_Type cb = ''thinking''))"

definition carries_signature :: "'p runtime \<Rightarrow> int \<Rightarrow> string \<Rightarrow> bool" where
  "carries_signature R i line =
     (case event_at R line of
        None \<Rightarrow> False
      | Some ev \<Rightarrow>
          ev_Type ev = ''content_block_delta'' \<and> ev_Index ev = i \<and>
          (case Unmarshal_delta R (ev_Delta ev) of
             None \<Rightarrow> False | Some dl \<Rightarrow> d_Type dl = ''signature_delta''))"

definition run :: "'p runtime \<Rightarrow> 'p SignatureStreamState \<Rightarrow> string list \<Rightarrow> 'p SignatureStreamState" where
  "run R s lines = fold (\<lambda>line s. snd (ProcessSSELine R s line)) lines s"

primrec tracked_back :: "'p runtime \<Rightarrow> int \<Rightarrow> string list \<Rightarrow> bool option" where
  "tracked_back R i [] = None"
| "tracked_back R i (l # earlier) =
     (if opens_thinking R i l then Some False
      else if carries_signature R i l then map_option (\<lambda>b. True) (tracked_back R i earlier)
      else tracked_back R i earlier)"

definition tracked_since :: "'p runtime \<Rightarrow> int \<Rightarrow> string list \<Rightarrow> bool option" where
  "tracked_since R i lines = tracked_back R i (rev lines)"

section \<open>The signatures table and its repository\<close>

text \<open>
  The \<^verbatim>\<open>Signature\<close> entity of the service package, without its four time stamps
  (\<^verbatim>\<open>LastUsedAt\<close>, \<^verbatim>\<open>LastVerifiedAt\<close>, \<^verbatim>\<open>CreatedAt\<close>, \<^verbatim>\<open>UpdatedAt\<close>), which no
  operation below reads.
\<close>

record Signature =
  ID :: int
  Value :: string
  Hash :: string
  Model :: "string option"
  Source :: string
  Status :: string
  UseCount :: int
  Notes :: "string option"
  CollectedFromAccountID :: "int option"

record BatchImportResult =
  Total :: int
  Imported :: int
  Duplicated :: int
  Failed :: int

text \<open>
  The table of migration 042: a row is a signature and its \<^verbatim>\<open>deleted_at\<close> column. The
  column \<^verbatim>\<open>hash\<close> is declared \<^verbatim>\<open>UNIQUE\<close>, over all rows of the table, deleted or not;
  \<^verbatim>\<open>source\<close> and \<^verbatim>\<open>status\<close> carry \<^verbatim>\<open>CHECK\<close> constraints; \<^verbatim>\<open>id\<close> is a sequence. The
  widths of the \<^verbatim>\<open>VARCHAR\<close> columns are not modelled.

  Every call that reaches the database may fail for reasons of its own (connection,
  cancellation): \<open>faults\<close> scripts the outcome of the coming round trips, \<open>None\<close> or
  an exhausted script meaning that the round trip goes through. \<open>calls\<close> records the
  repository methods invoked, in order.
\<close>

record row =
  r_sig :: Signature
  deleted_at :: "int option"

datatype repo_call =
    CallCreate Signature
  | CallBatchCreate "Signature list"
  | CallExistsByHash string
  | CallExistsByHashes "string list"
  | CallDelete int
  | CallListActive int

record db =
  rows :: "row list"
  next_id :: int
  faults :: "db_error option list"
  calls :: "repo_call list"

definition round_trip :: "db \<Rightarrow> db_error option \<times> db" where
  "round_trip d = (case faults d of [] \<Rightarrow> (None, d) | f # fs \<Rightarrow> (f, d\<lparr>faults := fs\<rparr>))"

definition live :: "row \<Rightarrow> bool" where
  "live r = (deleted_at r = None)"

definition insert_row :: "db \<Rightarrow> Signature \<Rightarrow> db_error + db" where
  "insert_row d sg =
     (if Source sg \<notin> {''collected'', ''imported'', ''manual''} \<or>
         Status sg \<notin> {''active'', ''disabled'', ''expired''}
      then Inl CheckViolation
      else if list_ex (\<lambda>r. Hash (r_sig r) = Hash sg) (rows d) then Inl UniqueViolation
      else Inr (d\<lparr>rows := rows d @ [\<lparr>r_sig = sg\<lparr>ID := next_id d\<rparr>, deleted_at = None\<rparr>],
                 next_id := next_id d + 1\<rparr>))"

primrec insert_rows :: "db \<Rightarrow> Signature list \<Rightarrow> db_error + db" where
  "insert_rows d [] = Inr d"
| "insert_rows d (sg # sgs) =
     (case insert_row d sg of Inl e \<Rightarrow> Inl e | Inr d' \<Rightarrow> insert_rows d' sgs)"

text \<open>
  \<^verbatim>\<open>Create\<close> of the repository takes a pointer (nil is \<open>None\<close>), sets neither the
  account nor the time stamps of collection, and writes the new id into its argument.
\<close>

definition repo_Create ::
  "(db_error \<Rightarrow> error) \<Rightarrow> db \<Rightarrow> Signature option \<Rightarrow> (Signature option \<times> error option) \<times> db" where
  "repo_Create tr d sgo =
     (case sgo of
        None \<Rightarrow> ((None, Some ErrSignatureNilInput), d)
      | Some sg \<Rightarrow>
          (let (f, d1) = round_trip (d\<lparr>calls := calls d @ [CallCreate sg]\<rparr>)
           in case f of
                Some e \<Rightarrow> ((Some sg, Some (tr e)), d1)
              | None \<Rightarrow>
                  (case insert_row d1 (sg\<lparr>CollectedFromAccountID := None\<rparr>) of
                     Inl e \<Rightarrow> ((Some sg, Some (tr e)), d1)
                   | Inr d2 \<Rightarrow> ((Some (sg\<lparr>ID := next_id d1\<rparr>), None), d2))))"

text \<open>
  \<^verbatim>\<open>BatchCreate\<close> returns without a round trip on an empty list; otherwise the rows are
  inserted by one statement, all or none.
\<close>

definition repo_BatchCreate ::
  "(db_error \<Rightarrow> error) \<Rightarrow> db \<Rightarrow> Signature list \<Rightarrow> (int \<times> error option) \<times> db" where
  "repo_BatchCreate tr d sgs =
     (let d0 = d\<lparr>calls := calls d @ [CallBatchCreate sgs]\<rparr>
      in if length sgs = 0 then ((0, None), d0)
         else
           (let (f, d1) = round_trip d0
            in case f of
                 Some e \<Rightarrow> ((0, Some (tr e)), d1)
               | None \<Rightarrow>
                   (case insert_rows d1 sgs of
                      Inl e \<Rightarrow> ((0, Some (tr e)), d1)
                    | Inr d2 \<Rightarrow> ((int (length sgs), None), d2))))"

definition repo_ExistsByHash ::
  "(db_error \<Rightarrow> error) \<Rightarrow> db \<Rightarrow> string \<Rightarrow> (bool \<times> error option) \<times> db" where
  "repo_ExistsByHash tr d h =
     (let (f, d1) = round_trip (d\<lparr>calls := calls d @ [CallExistsByHash h]\<rparr>)
      in case f of
           Some e \<Rightarrow> ((False, Some (tr e)), d1)
         | None \<Rightarrow> ((list_ex (\<lambda>r. live r \<and> Hash (r_sig r) = h) (rows d1), None), d1))"

text \<open>The result of \<^verbatim>\<open>ExistsByHashes\<close> is a \<^verbatim>\<open>map[string]bool\<close>, nil on error.\<close>

definition repo_ExistsByHashes ::
  "(db_error \<Rightarrow> error) \<Rightarrow> db \<Rightarrow> string list \<Rightarrow> ((string \<rightharpoonup> bool) option \<times> error option) \<times> db" where
  "repo_ExistsByHashes tr d hs =
     (let d0 = d\<lparr>calls := calls d @ [CallExistsByHashes hs]\<rparr>
      in if length hs = 0 then ((Some Map.empty, None), d0)
         else
           (let (f, d1) = round_trip d0
            in case f of
                 Some e \<Rightarrow> ((None, Some (tr e)), d1)
               | None \<Rightarrow>
                   (let existing = map (\<lambda>r. Hash (r_sig r))
                                       (filter (\<lambda>r. live r \<and> Hash (r_sig r) \<in> set hs) (rows d1))
                    in ((Some (fold (\<lambda>h m. m(h \<mapsto> True)) existing Map.empty), None), d1))))"

text \<open>Soft deletion: \<^verbatim>\<open>UpdateOneID(id).SetDeletedAt(now)\<close>.\<close>

definition repo_Delete :: "(db_error \<Rightarrow> error) \<Rightarrow> db \<Rightarrow> int \<Rightarrow> int \<Rightarrow> error option \<times> db" where
  "repo_Delete tr d now i =
     (let (f, d1) = round_trip (d\<lparr>calls := calls d @ [CallDelete i]\<rparr>)
      in case f of
           Some e \<Rightarrow> (Some (tr e), d1)
         | None \<Rightarrow>
             if list_ex (\<lambda>r. ID (r_sig r) = i) (rows d1)
             then (None, d1\<lparr>rows := map (\<lambda>r. if ID (r_sig r) = i then r\<lparr>deleted_at := Some now\<rparr> else r)
                                        (rows d1)\<rparr>)
             else (Some (tr NoRows), d1))"

text \<open>
  \<^verbatim>\<open>ListActive\<close>: active rows that are not deleted, by decreasing use count (rows of
  equal count in table order), capped when the limit is positive.
\<close>

definition repo_ListActive ::
  "(db_error \<Rightarrow> error) \<Rightarrow> db \<Rightarrow> int \<Rightarrow> (Signature list \<times> error option) \<times> db" where
  "repo_ListActive tr d limit =
     (let (f, d1) = round_trip (d\<lparr>calls := calls d @ [CallListActive limit]\<rparr>)
      in case f of
           Some e \<Rightarrow> (([], Some (tr e)), d1)
         | None \<Rightarrow>
             (let models = sort_key (\<lambda>sg. - UseCount sg)
                             (map r_sig (filter (\<lambda>r. Status (r_sig r) = ''active'' \<and> live r) (rows d1)))
              in ((if limit > 0 then take (nat limit) models else models, None), d1)))"

section \<open>Signature service\<close>

text \<open>
  \<^verbatim>\<open>sha256.Sum256\<close> is a parameter \<open>sha\<close> (from a string to the bytes of its digest);
  \<^verbatim>\<open>hex.EncodeToString\<close> writes two lower-case digits for each byte.
\<close>

definition hex_EncodeToString :: "string \<Rightarrow> string" where
  "hex_EncodeToString bs = concat (map (\<lambda>c. [hex_digit (byte c div 16), hex_digit (byte c mod 16)]) bs)"

definition computeSignatureHash :: "(string \<Rightarrow> string) \<Rightarrow> string \<Rightarrow> string" where
  "computeSignatureHash sha v = hex_EncodeToString (sha v)"

definition Create ::
  "(string \<Rightarrow> string) \<Rightarrow> (db_error \<Rightarrow> error) \<Rightarrow> db \<Rightarrow> string \<Rightarrow> string option \<Rightarrow> string option
     \<Rightarrow> (Signature option \<times> error option) \<times> db" where
  "Create sha tr d v model notes =
     (let hash = computeSignatureHash sha v;
          ((exists, err), d1) = repo_ExistsByHash tr d hash
      in case err of
           Some e \<Rightarrow> ((None, Some e), d1)
         | None \<Rightarrow>
             if exists then ((None, Some ErrSignatureDuplicate), d1)
             else
               (let sg = \<lparr>ID = 0, Value = v, Hash = hash, Model = model, Source = ''manual'',
                          Status = ''active'', UseCount = 0, Notes = notes,
                          CollectedFromAccountID = None\<rparr>;
                    ((sg', err'), d2) = repo_Create tr d1 (Some sg)
                in case err' of
                     Some e \<Rightarrow> ((None, Some e), d2)
                   | None \<Rightarrow> ((sg', None), d2)))"

text \<open>
  The two loops of \<^verbatim>\<open>BatchImport\<close>. The first fills \<^verbatim>\<open>hashes\<close> and the map
  \<^verbatim>\<open>valueToHash\<close>; the second looks each value up in both maps (a missing key reads as
  the zero value) and either counts it as duplicated or appends a new signature.
\<close>

definition valueToHash_of :: "(string \<Rightarrow> string) \<Rightarrow> string list \<Rightarrow> (string \<rightharpoonup> string)" where
  "valueToHash_of sha vs = fold (\<lambda>v m. m(v \<mapsto> computeSignatureHash sha v)) vs Map.empty"

definition lookup_string :: "(string \<rightharpoonup> string) \<Rightarrow> string \<Rightarrow> string" where
  "lookup_string m k = (case m k of None \<Rightarrow> [] | Some v \<Rightarrow> v)"

definition lookup_bool :: "(string \<rightharpoonup> bool) \<Rightarrow> string \<Rightarrow> bool" where
  "lookup_bool m k = (case m k of None \<Rightarrow> False | Some b \<Rightarrow> b)"

definition filter_step ::
  "(string \<rightharpoonup> string) \<Rightarrow> (string \<rightharpoonup> bool) \<Rightarrow> string option \<Rightarrow> string \<Rightarrow> string
     \<Rightarrow> BatchImportResult \<times> Signature list \<Rightarrow> BatchImportResult \<times> Signature list" where
  "filter_step valueToHash existingHashes model source v acc =
     (let (result, newSigs) = acc;
          hash = lookup_string valueToHash v
      in if lookup_bool existingHashes hash
         then (result\<lparr>Duplicated := Duplicated result + 1\<rparr>, newSigs)
         else (result,
               newSigs @ [\<lparr>ID = 0, Value = v, Hash = hash, Model = model, Source = source,
                           Status = ''active'', UseCount = 0, Notes = None,
                           CollectedFromAccountID = None\<rparr>]))"

definition filter_new ::
  "(string \<rightharpoonup> string) \<Rightarrow> (string \<rightharpoonup> bool) \<Rightarrow> string option \<Rightarrow> string
     \<Rightarrow> string list \<Rightarrow> BatchImportResult \<Rightarrow> BatchImportResult \<times> Signature list" where
  "filter_new valueToHash existingHashes model source vs result =
     fold (filter_step valueToHash existingHashes model source) vs (result, [])"

definition BatchImport ::
  "(string \<Rightarrow> string) \<Rightarrow> (db_error \<Rightarrow> error) \<Rightarrow> db \<Rightarrow> string list \<Rightarrow> string option \<Rightarrow> string
     \<Rightarrow> (BatchImportResult option \<times> error option) \<times> db" where
  "BatchImport sha tr d vs model source0 =
     (if length vs = 0
      then ((Some \<lparr>Total = 0, Imported = 0, Duplicated = 0, Failed = 0\<rparr>, None), d)
      else
        (let source = (if source0 = [] then ''imported'' else source0);
             result = \<lparr>Total = int (length vs), Imported = 0, Duplicated = 0, Failed = 0\<rparr>;
             hashes = map (computeSignatureHash sha) vs;
             valueToHash = valueToHash_of sha vs;
             ((existingHashes, err), d1) = repo_ExistsByHashes tr d hashes
         in case err of
              Some e \<Rightarrow> ((None, Some e), d1)
            | None \<Rightarrow>
                (let (result1, newSigs) =
                       filter_new valueToHash (case existingHashes of None \<Rightarrow> Map.empty | Some m \<Rightarrow> m)
                         model source vs result
                 in if length newSigs > 0 then
                      (let ((imported, err'), d2) = repo_BatchCreate tr d1 newSigs
                       in case err' of
                            Some e \<Rightarrow> ((Some (result1\<lparr>Failed := int (length newSigs)\<rparr>), Some e), d2)
                          | None \<Rightarrow> ((Some (result1\<lparr>Imported := imported\<rparr>), None), d2))
                    else ((Some result1, None), d1))))"

definition Delete :: "(db_error \<Rightarrow> error) \<Rightarrow> db \<Rightarrow> int \<Rightarrow> int \<Rightarrow> error option \<times> db" where
  "Delete tr d now i = repo_Delete tr d now i"

text \<open>
  Two notions used to state the properties of the service: a hash is stored when a row
  that is not deleted holds it (what \<^verbatim>\<open>ExistsByHash\<close> and \<^verbatim>\<open>ExistsByHashes\<close> look for), and
  the signature that \<^verbatim>\<open>BatchImport\<close> builds for a new value.
\<close>

definition stored :: "db \<Rightarrow> string \<Rightarrow> bool" where
  "stored d h = list_ex (\<lambda>r. live r \<and> Hash (r_sig r) = h) (rows d)"

definition new_signature :: "(string \<Rightarrow> string) \<Rightarrow> string option \<Rightarrow> string \<Rightarrow> string \<Rightarrow> Signature" where
  "new_signature sha model source v =
     \<lparr>ID = 0, Value = v, Hash = computeSignatureHash sha v, Model = model, Source = source,
      Status = ''active'', UseCount = 0, Notes = None, CollectedFromAccountID = None\<rparr>"

section \<open>Signature pool\<close>

record CachedSignature =
  cs_ID :: int
  cs_Value :: string
  cs_Model :: "string option"

text \<open>
  The pool service with what it reads from outside: the database behind its repository,
  the clock (\<open>clock\<close> is the sequence of readings of \<^verbatim>\<open>time.Now\<close>, \<open>clock_used\<close> how many
  were taken), the generator (\<open>rng\<close> is its output sequence; \<^verbatim>\<open>Intn n\<close> reduces the next
  output below \<open>n\<close>), and the goroutines it has started: \<open>started\<close> lists the ids handed
  to \<^verbatim>\<open>go s.MarkUsed\<close>, which run detached from the call. Times are integers, the zero
  \<^verbatim>\<open>time.Time\<close> being \<open>0\<close>.
\<close>

record signaturePoolService =
  repo :: db
  cachedSigs :: "CachedSignature list"
  cacheExpiry :: int
  cacheTTL :: int
  rng :: "nat \<Rightarrow> nat"
  rng_used :: nat
  clock :: "nat \<Rightarrow> int"
  clock_used :: nat
  started :: "int list"

definition time_Now :: "signaturePoolService \<Rightarrow> int \<times> signaturePoolService" where
  "time_Now w = (clock w (clock_used w), w\<lparr>clock_used := Suc (clock_used w)\<rparr>)"

definition rng_Intn :: "signaturePoolService \<Rightarrow> nat \<Rightarrow> nat \<times> signaturePoolService" where
  "rng_Intn w n = (rng w (rng_used w) mod n, w\<lparr>rng_used := Suc (rng_used w)\<rparr>)"

text \<open>The test \<^verbatim>\<open>len(s.cachedSigs) > 0 && time.Now().Before(s.cacheExpiry)\<close>.\<close>

definition cache_valid :: "signaturePoolService \<Rightarrow> bool \<times> signaturePoolService" where
  "cache_valid w =
     (if length (cachedSigs w) > 0
      then (let (t, w') = time_Now w in (t < cacheExpiry w', w'))
      else (False, w))"

definition reloadCache ::
  "(db_error \<Rightarrow> error) \<Rightarrow> signaturePoolService \<Rightarrow> CachedSignature list \<times> signaturePoolService" where
  "reloadCache tr w =
     (let (valid, w1) = cache_valid w
      in if valid then (cachedSigs w1, w1)
         else
           (let ((sgs, err), d) = repo_ListActive tr (repo w1) 1000;
                w2 = w1\<lparr>repo := d\<rparr>
            in case err of
                 Some e \<Rightarrow> (cachedSigs w2, w2)
               | None \<Rightarrow>
                   (let w3 = w2\<lparr>cachedSigs :=
                                 map (\<lambda>sg. \<lparr>cs_ID = ID sg, cs_Value = Value sg, cs_Model = Model sg\<rparr>) sgs\<rparr>;
                        (t, w4) = time_Now w3;
                        w5 = w4\<lparr>cacheExpiry := t + cacheTTL w4\<rparr>
                    in (cachedSigs w5, w5))))"

definition getCachedSignatures ::
  "(db_error \<Rightarrow> error) \<Rightarrow> signaturePoolService \<Rightarrow> CachedSignature list \<times> signaturePoolService" where
  "getCachedSignatures tr w =
     (let (valid, w1) = cache_valid w
      in if valid then (cachedSigs w1, w1) else reloadCache tr w1)"

definition filterSignatures ::
  "CachedSignature list \<Rightarrow> SignaturePoolFilter option \<Rightarrow> CachedSignature list" where
  "filterSignatures sigs flt =
     (case flt of
        None \<Rightarrow> sigs
      | Some f \<Rightarrow>
          if length (Models f) = 0 then sigs
          else
            (let modelSet = set (Models f);
                 result = filter (\<lambda>sg. case cs_Model sg of None \<Rightarrow> True | Some m \<Rightarrow> m \<in> modelSet) sigs
             in if length result = 0 then sigs else result))"

text \<open>
  A signature is eligible under a filter when it has no model or its model is one of the
  filter's.
\<close>

definition eligible :: "SignaturePoolFilter \<Rightarrow> CachedSignature \<Rightarrow> bool" where
  "eligible f sg = (case cs_Model sg of None \<Rightarrow> True | Some m \<Rightarrow> m \<in> set (Models f))"

definition GetRandomSignature ::
  "(db_error \<Rightarrow> error) \<Rightarrow> signaturePoolService \<Rightarrow> SignaturePoolFilter option
     \<Rightarrow> (string \<times> error option) \<times> signaturePoolService" where
  "GetRandomSignature tr w flt =
     (let (sigs, w1) = getCachedSignatures tr w
      in if length sigs = 0 then (([], Some ErrSignaturePoolEmpty), w1)
         else
           (let filtered = filterSignatures sigs flt
            in if length filtered = 0 then (([], Some ErrSignaturePoolEmpty), w1)
               else
                 (let (idx, w2) = rng_Intn w1 (length filtered);
                      selected = filtered ! idx
                  in ((cs_Value selected, None), w2\<lparr>started := started w2 @ [cs_ID selected]\<rparr>))))"

definition InvalidateCache :: "signaturePoolService \<Rightarrow> signaturePoolService" where
  "InvalidateCache w = w\<lparr>cacheExpiry := 0\<rparr>"

definition GetPoolSize :: "signaturePoolService \<Rightarrow> int" where
  "GetPoolSize w = int (length (cachedSigs w))"

section \<open>Concrete instances\<close>

text \<open>
  Inputs for the closed examples: a translation of driver errors, a table with one active
  signature, a pool over it, and the three events of a thinking block on the wire with the
  answers of the JSON routines on exactly these payloads.
\<close>

definition example_translate :: "db_error \<Rightarrow> error" where
  "example_translate e = (case e of NoRows \<Rightarrow> ErrSignatureNotFound | _ \<Rightarrow> ErrOther e)"

definition example_db :: db where
  "example_db =
     \<lparr>rows = [\<lparr>r_sig = \<lparr>ID = 1, Value = ''SIG-A'', Hash = ''00'', Model = None, Source = ''manual'',
                         Status = ''active'', UseCount = 0, Notes = None,
                         CollectedFromAccountID = None\<rparr>,
               deleted_at = None\<rparr>],
      next_id = 2, faults = [], calls = []\<rparr>"

definition example_pool :: signaturePoolService where
  "example_pool =
     \<lparr>repo = example_db, cachedSigs = [], cacheExpiry = 0, cacheTTL = 300000000000,
      rng = (\<lambda>n. n), rng_used = 0, clock = (\<lambda>n. 1000 + int n), clock_used = 0, started = []\<rparr>"

definition start_payload :: string where
  \<open>start_payload = ''{"type":"content_block_start","index":0,"content_block":{"type":"thinking","thinking":"x","signature":""}}''\<close>

definition delta_payload :: string where
  \<open>delta_payload = ''{"type":"content_block_delta","index":0,"delta":{"type":"signature_delta","signature":"UPSTREAM"}}''\<close>

definition stop_payload :: string where
  \<open>stop_payload = ''{"type":"content_block_stop","index":0}''\<close>

definition example_Unmarshal_event :: "string \<Rightarrow> sse_event option" where
  \<open>example_Unmarshal_event data =
     (if data = start_payload then
        Some \<lparr>ev_Type = ''content_block_start'', ev_Index = 0, ev_Delta = [],
              ev_ContentBlock = ''{"type":"thinking","thinking":"x","signature":""}''\<rparr>
      else if data = delta_payload then
        Some \<lparr>ev_Type = ''content_block_delta'', ev_Index = 0,
              ev_Delta = ''{"type":"signature_delta","signature":"UPSTREAM"}'', ev_ContentBlock = []\<rparr>
      else if data = stop_payload then
        Some \<lparr>ev_Type = ''content_block_stop'', ev_Index = 0, ev_Delta = [], ev_ContentBlock = []\<rparr>
      else None)\<close>

definition example_Unmarshal_content_block :: "string \<Rightarrow> content_block option" where
  \<open>example_Unmarshal_content_block raw =
     (if raw = ''{"type":"thinking","thinking":"x","signature":""}''
      then Some \<lparr>cb_Type = ''thinking'', cb_Thinking = ''x'', cb_Signature = []\<rparr>
      else None)\<close>

definition example_Unmarshal_delta :: "string \<Rightarrow> delta option" where
  \<open>example_Unmarshal_delta raw =
     (if raw = ''{"type":"signature_delta","signature":"UPSTREAM"}''
      then Some \<lparr>d_Type = ''signature_delta'', d_Signature = ''UPSTREAM''\<rparr>
      else None)\<close>

definition example_sjson_Set :: "string \<Rightarrow> string \<Rightarrow> string \<Rightarrow> string option" where
  \<open>example_sjson_Set data path v =
     (if data = delta_payload \<and> path = ''delta.signature'' \<and> v = ''SIG-A''
      then Some ''{"type":"content_block_delta","index":0,"delta":{"type":"signature_delta","signature":"SIG-A"}}''
      else None)\<close>

definition example_runtime :: "signaturePoolService runtime" where
  "example_runtime =
     \<lparr>Unmarshal_event = example_Unmarshal_event,
      Unmarshal_content_block = example_Unmarshal_content_block,
      Unmarshal_delta = example_Unmarshal_delta,
      sjson_Set = example_sjson_Set,
      pool_GetRandomSignature = GetRandomSignature example_translate,
      growslice = (\<lambda>c n. 2 * c)\<rparr>"

text \<open>
  An empty store, and the collector of minimum length 5 after it collected \<^verbatim>\<open>abcdef\<close>.
\<close>

definition heap0 :: heap where
  "heap0 = \<lparr>h_arrays = Map.empty, h_next = 0\<rparr>"

definition example_collector :: "SignatureCollector \<times> heap" where
  "example_collector =
     (let (c, h) = NewSignatureCollector heap0 7 None 5
      in CollectSig (\<lambda>c n. 2 * c) c ''abcdef'' h)"

text \<open>A processor with the example pool and no collector, before and after the start event.\<close>

definition example_config :: "string \<Rightarrow> SignatureConfig" where
  "example_config strategy =
     \<lparr>Enabled = True, Strategy = strategy, PoolFilter = None, EnableCollection = False, MinLength = 0\<rparr>"

definition example_state :: "string \<Rightarrow> signaturePoolService SignatureStreamState" where
  "example_state strategy =
     NewSignatureStreamState heap0 (example_config strategy) example_pool 7 None"

definition started_state :: "string \<Rightarrow> signaturePoolService SignatureStreamState" where
  "started_state strategy = snd (ProcessSSELine example_runtime (example_state strategy) (''data: '' @ start_payload))"

text \<open>
  The line as the specification writes it (members in the order \<^verbatim>\<open>type\<close>, \<^verbatim>\<open>index\<close>,
  \<^verbatim>\<open>delta\<close>, and \<^verbatim>\<open>type\<close>, \<^verbatim>\<open>signature\<close> inside the delta), to be compared with the line
  the code emits.
\<close>

definition spec_signature_delta_line :: "int \<Rightarrow> string \<Rightarrow> string" where
  \<open>spec_signature_delta_line i v =
     ''data: {"type":"content_block_delta","index":'' @ strconv_Itoa i
       @ '',"delta":{"type":"signature_delta","signature":'' @ appendString v @ ''}}''\<close>

definition empty_pool :: signaturePoolService where
  "empty_pool = example_pool\<lparr>repo := example_db\<lparr>rows := []\<rparr>\<rparr>"

text \<open>
  Pools for the selection examples: three signatures of which one has no model and one the
  model \<^verbatim>\<open>m2\<close>; a single signature of model \<^verbatim>\<open>m1\<close>; and a pool whose snapshot has expired
  while the next round trip to the database fails.
\<close>

definition example_row :: "int \<Rightarrow> string \<Rightarrow> string \<Rightarrow> string option \<Rightarrow> row" where
  "example_row i v h m =
     \<lparr>r_sig = \<lparr>ID = i, Value = v, Hash = h, Model = m, Source = ''manual'', Status = ''active'',
               UseCount = 0, Notes = None, CollectedFromAccountID = None\<rparr>,
      deleted_at = None\<rparr>"

definition models_pool :: signaturePoolService where
  "models_pool =
     example_pool\<lparr>repo := example_db\<lparr>rows := [example_row 1 ''S1'' ''01'' (Some ''m1''),
                                             example_row 2 ''S2'' ''02'' None,
                                             example_row 3 ''S3'' ''03'' (Some ''m2'')]\<rparr>,
                  rng := (\<lambda>n. 1)\<rparr>"

definition single_pool :: signaturePoolService where
  "single_pool = example_pool\<lparr>repo := example_db\<lparr>rows := [example_row 1 ''S1'' ''01'' (Some ''m1'')]\<rparr>\<rparr>"

definition stale_pool :: signaturePoolService where
  "stale_pool =
     example_pool\<lparr>repo := example_db\<lparr>faults := [Some Unavailable]\<rparr>,
                  cachedSigs := [\<lparr>cs_ID = 1, cs_Value = ''SIG-A'', cs_Model = None\<rparr>],
                  cacheExpiry := 500\<rparr>"

text \<open>
  A digest for the closed examples (the bytes of the value itself; the theorems hold for
  every digest), an empty table, and a table that holds the value \<^verbatim>\<open>X\<close>.
\<close>

definition example_sha :: "string \<Rightarrow> string" where
  "example_sha v = v"

definition empty_db :: db where
  "empty_db = \<lparr>rows = [], next_id = 1, faults = [], calls = []\<rparr>"

definition x_db :: db where
  "x_db = empty_db\<lparr>rows := [example_row 1 ''X'' (computeSignatureHash example_sha ''X'') None], next_id := 2\<rparr>"

text \<open>A runtime whose \<^verbatim>\<open>sjson.Set\<close> always reports an error.\<close>

definition silent_runtime :: "signaturePoolService runtime" where
  "silent_runtime = example_runtime\<lparr>sjson_Set := (\<lambda>data path v. None)\<rparr>"

section \<open>Evaluation rules\<close>

lemmas example_defs =
  example_runtime_def example_Unmarshal_event_def example_Unmarshal_content_block_def
  example_Unmarshal_delta_def example_sjson_Set_def example_state_def example_config_def
  NewSignatureStreamState_def start_payload_def delta_payload_def stop_payload_def
  example_pool_def example_db_def empty_pool_def

lemmas pool_defs =
  GetRandomSignature_def getCachedSignatures_def reloadCache_def cache_valid_def
  repo_ListActive_def round_trip_def live_def filterSignatures_def rng_Intn_def time_Now_def

lemmas line_defs =
  sseDataRegex_ReplaceAllString_def sseDataRegex_MatchString_def is_space_def

lemmas stream_defs =
  event_at_def opens_thinking_def carries_signature_def tracked_since_def run_def

lemmas pool_examples = models_pool_def single_pool_def stale_pool_def example_row_def

lemmas service_defs =
  BatchImport_def Create_def repo_ExistsByHashes_def repo_ExistsByHash_def repo_BatchCreate_def
  repo_Create_def repo_Delete_def Delete_def insert_row_def round_trip_def live_def
  filter_new_def filter_step_def valueToHash_of_def lookup_string_def lookup_bool_def
  computeSignatureHash_def hex_EncodeToString_def hex_digit_def byte_def example_sha_def
  empty_db_def x_db_def example_row_def example_translate_def stored_def new_signature_def

section \<open>Tracking follows the stream\<close>

text \<open>
  From a processor with no tracked block, the block map after a stream holds a block at
  an index exactly when a line of the stream opened a thinking block there, and the
  block's \<^verbatim>\<open>HasSignatureDelta\<close> tells whether a line carried a signature at the index after
  the last such line. The configuration never changes.
\<close>

lemma tracked_since_snoc:
  "tracked_since R i (lines @ [l]) =
     (if opens_thinking R i l then Some False
      else if carries_signature R i l then map_option (\<lambda>b. True) (tracked_since R i lines)
      else tracked_since R i lines)"
  by (simp add: tracked_since_def)

lemma tracked_back_None: "(tracked_back R i ls = None) = (\<forall>l\<in>set ls. \<not> opens_thinking R i l)"
  by (induction ls) auto

lemma tracked_since_None: "(tracked_since R i lines = None) = (\<forall>l\<in>set lines. \<not> opens_thinking R i l)"
  by (simp add: tracked_since_def tracked_back_None)

lemma tracked_since_last_start:
  assumes "opens_thinking R i l" and "\<forall>x\<in>set later. \<not> opens_thinking R i x"
  shows "tracked_since R i (earlier @ l # later) = Some (\<exists>x\<in>set later. carries_signature R i x)"
  using assms(2)
proof (induction later rule: rev_induct)
  case Nil
  show ?case using assms(1) tracked_since_snoc [of R i earlier l] by simp
next
  case (snoc x later)
  have "tracked_since R i ((earlier @ l # later) @ [x]) =
          (if carries_signature R i x then map_option (\<lambda>b. True) (tracked_since R i (earlier @ l # later))
           else tracked_since R i (earlier @ l # later))"
    using snoc.prems by (simp only: tracked_since_snoc) simp
  with snoc show ?case by auto
qed

lemma start_blocks:
  "thinkingBlocks (snd (handleContentBlockStart R s line data j raw)) i =
     (if j = i \<and> (case Unmarshal_content_block R raw of None \<Rightarrow> False | Some cb \<Rightarrow> cb_Type cb = ''thinking'')
      then Some \<lparr>Index = j, Started = True, HasSignatureDelta = False, ReceivedSignature = [], Stopped = False\<rparr>
      else thinkingBlocks s i)"
  by (simp add: handleContentBlockStart_def split: option.splits)

lemma replace_blocks: "thinkingBlocks (snd (replaceSignatureInLine R s line j)) = thinkingBlocks s"
  by (simp add: replaceSignatureInLine_def Let_def split_beta split: option.splits)

lemma delta_blocks:
  "map_option HasSignatureDelta (thinkingBlocks (snd (handleContentBlockDelta R s line data j raw)) i) =
     (if j = i \<and> (case Unmarshal_delta R raw of None \<Rightarrow> False | Some dl \<Rightarrow> d_Type dl = ''signature_delta'')
      then map_option (\<lambda>b. True) (map_option HasSignatureDelta (thinkingBlocks s i))
      else map_option HasSignatureDelta (thinkingBlocks s i))"
proof (cases "Unmarshal_delta R raw")
  case None
  then show ?thesis by (simp add: handleContentBlockDelta_def)
next
  case (Some dl)
  show ?thesis
  proof (cases "d_Type dl = ''signature_delta''")
    case False
    with Some show ?thesis by (simp add: handleContentBlockDelta_def)
  next
    case True
    show ?thesis
    proof (cases "thinkingBlocks s j")
      case None
      with Some True show ?thesis
        by (auto simp: handleContentBlockDelta_def replace_blocks Let_def)
    next
      case b: (Some b)
      with Some True show ?thesis
        by (auto simp: handleContentBlockDelta_def replace_blocks Let_def split_beta split: option.splits)
    qed
  qed
qed

lemma generate_blocks: "thinkingBlocks (snd (generateSignatureDeltaLine R s j)) = thinkingBlocks s"
  by (simp add: generateSignatureDeltaLine_def Let_def split_beta split: option.splits)

lemma stop_blocks:
  "map_option HasSignatureDelta (thinkingBlocks (snd (handleContentBlockStop R s line j)) i) =
     map_option HasSignatureDelta (thinkingBlocks s i)"
proof (cases "thinkingBlocks s j")
  case None
  then show ?thesis by (simp add: handleContentBlockStop_def)
next
  case (Some b)
  then show ?thesis
    by (auto simp: handleContentBlockStop_def generate_blocks Let_def split_beta)
qed

lemma step_tracking:
  "map_option HasSignatureDelta (thinkingBlocks (snd (ProcessSSELine R s line)) i) =
     (if opens_thinking R i line then Some False
      else if carries_signature R i line
           then map_option (\<lambda>b. True) (map_option HasSignatureDelta (thinkingBlocks s i))
      else map_option HasSignatureDelta (thinkingBlocks s i))"
proof (cases "event_at R line")
  case None
  then have "snd (ProcessSSELine R s line) = s"
    by (auto simp: ProcessSSELine_def event_at_def Let_def split: if_splits)
  with None show ?thesis
    by (simp add: opens_thinking_def carries_signature_def)
next
  case (Some ev)
  then have e: "sseDataRegex_MatchString line" "sseDataRegex_ReplaceAllString line \<noteq> []"
    "sseDataRegex_ReplaceAllString line \<noteq> ''[DONE]''"
    "Unmarshal_event R (sseDataRegex_ReplaceAllString line) = Some ev"
    by (auto simp: event_at_def split: if_splits)
  consider (start) "ev_Type ev = ''content_block_start''"
    | (delta) "ev_Type ev = ''content_block_delta''"
    | (stop) "ev_Type ev = ''content_block_stop''"
    | (other) "ev_Type ev \<noteq> ''content_block_start''" "ev_Type ev \<noteq> ''content_block_delta''"
        "ev_Type ev \<noteq> ''content_block_stop''"
    by blast
  then show ?thesis
  proof cases
    case start
    with e Some show ?thesis
      by (simp add: ProcessSSELine_def Let_def split_beta start_blocks opens_thinking_def
          carries_signature_def split: option.splits)
  next
    case delta
    with e Some show ?thesis
      by (simp add: ProcessSSELine_def Let_def split_beta delta_blocks opens_thinking_def
          carries_signature_def split: option.splits)
  next
    case stop
    with e Some show ?thesis
      by (simp add: ProcessSSELine_def Let_def split_beta stop_blocks opens_thinking_def
          carries_signature_def)
  next
    case other
    with e Some show ?thesis
      by (simp add: ProcessSSELine_def Let_def opens_thinking_def carries_signature_def)
  qed
qed

lemma run_snoc: "run R s (lines @ [l]) = snd (ProcessSSELine R (run R s lines) l)"
  by (simp add: run_def)

lemma tracking_follows_stream:
  assumes "thinkingBlocks s = Map.empty"
  shows "map_option HasSignatureDelta (thinkingBlocks (run R s lines) i) = tracked_since R i lines"
proof (induction lines rule: rev_induct)
  case Nil
  then show ?case using assms by (simp add: run_def tracked_since_def)
next
  case (snoc l lines)
  then show ?case
    by (simp only: run_snoc step_tracking tracked_since_snoc)
qed


lemma start_config: "config (snd (handleContentBlockStart R s line data j raw)) = config s"
  by (simp add: handleContentBlockStart_def split: option.splits)

lemma replace_config: "config (snd (replaceSignatureInLine R s line j)) = config s"
  by (simp add: replaceSignatureInLine_def Let_def split_beta split: option.splits)

lemma delta_config: "config (snd (handleContentBlockDelta R s line data j raw)) = config s"
proof (cases "Unmarshal_delta R raw")
  case None
  then show ?thesis by (simp add: handleContentBlockDelta_def)
next
  case (Some dl)
  then show ?thesis
    by (cases "thinkingBlocks s j")
      (auto simp: handleContentBlockDelta_def replace_config Let_def split_beta split: option.splits)
qed

lemma generate_config: "config (snd (generateSignatureDeltaLine R s j)) = config s"
  by (simp add: generateSignatureDeltaLine_def Let_def split_beta split: option.splits)

lemma stop_config: "config (snd (handleContentBlockStop R s line j)) = config s"
  by (cases "thinkingBlocks s j")
    (auto simp: handleContentBlockStop_def generate_config Let_def split_beta)

lemma step_config: "config (snd (ProcessSSELine R s line)) = config s"
  by (simp add: ProcessSSELine_def Let_def split_beta start_config delta_config stop_config
      split: option.splits)

lemma run_config: "config (run R s lines) = config s"
proof (induction lines rule: rev_induct)
  case Nil
  then show ?case by (simp add: run_def)
next
  case (snoc l lines)
  then show ?case by (simp add: run_snoc step_config)
qed

section \<open>The stop event\<close>

lemma stop_at_tracked_block:
  assumes "event_at R line = Some ev"
    and "ev_Type ev = ''content_block_stop''"
    and "thinkingBlocks s (ev_Index ev) = Some b"
    and "fst (pool_GetRandomSignature R (signaturePool s) (PoolFilter (config s))) = (v, err)"
  shows "fst (ProcessSSELine R s line) =
           (line,
            (if (Strategy (config s) = ''always_replace'' \<or> Strategy (config s) = ''fill_missing'')
                \<and> \<not> HasSignatureDelta b \<and> err = None \<and> v \<noteq> []
             then [''data: '' @ encode (JMap [(''type'', JString ''content_block_delta''),
                                 (''index'', JInt (ev_Index ev)),
                                 (''delta'', JMap [(''type'', JString ''signature_delta''),
                                                   (''signature'', JString v)])])]
             else []),
            None)"
proof -
  from assms(1) have e: "sseDataRegex_MatchString line" "sseDataRegex_ReplaceAllString line \<noteq> []"
    "sseDataRegex_ReplaceAllString line \<noteq> ''[DONE]''"
    "Unmarshal_event R (sseDataRegex_ReplaceAllString line) = Some ev"
    by (auto simp: event_at_def split: if_splits)
  with assms(2-4) show ?thesis
    by (auto simp: ProcessSSELine_def handleContentBlockStop_def generateSignatureDeltaLine_def
        json_Marshal_def Let_def split: prod.splits)
qed

text \<open>
  Claim C1. For every stream given to a processor that starts with no tracked block: when
  \<^verbatim>\<open>ProcessSSELine\<close> then receives a \<^verbatim>\<open>content_block_stop\<close> for an index at which the
  stream opened a thinking block, the stop line is returned unchanged with a nil error,
  and there is exactly one extra line, the synthetic \<^verbatim>\<open>signature_delta\<close> with the pool's
  value, if and only if the strategy is \<^verbatim>\<open>always_replace\<close> or \<^verbatim>\<open>fill_missing\<close>, no line
  carried a signature for the block since it was opened, and the pool yields a signature
  (no error and a value that is not empty). In every other case, among them any other
  strategy and a pool that yields nothing, no extra line is returned.
\<close>

theorem stop_injects_iff_missing:
  assumes "thinkingBlocks s0 = Map.empty"
    and "event_at R stop = Some ev"
    and "ev_Type ev = ''content_block_stop''"
    and "tracked_since R (ev_Index ev) lines = Some seen"
    and "fst (pool_GetRandomSignature R (signaturePool (run R s0 lines)) (PoolFilter (config s0))) = (v, err)"
  shows "fst (ProcessSSELine R (run R s0 lines) stop) =
           (stop,
            (if (Strategy (config s0) = ''always_replace'' \<or> Strategy (config s0) = ''fill_missing'')
                \<and> \<not> seen \<and> err = None \<and> v \<noteq> []
             then [''data: '' @ encode (JMap [(''type'', JString ''content_block_delta''),
                                 (''index'', JInt (ev_Index ev)),
                                 (''delta'', JMap [(''type'', JString ''signature_delta''),
                                                   (''signature'', JString v)])])]
             else []),
            None)"
proof -
  let ?s = "run R s0 lines"
  have "map_option HasSignatureDelta (thinkingBlocks ?s (ev_Index ev)) = Some seen"
    using tracking_follows_stream [OF assms(1), of R lines "ev_Index ev"] assms(4) by simp
  then obtain b where b: "thinkingBlocks ?s (ev_Index ev) = Some b" and h: "HasSignatureDelta b = seen"
    by auto
  have c: "config ?s = config s0"
    by (rule run_config)
  from stop_at_tracked_block [OF assms(2,3) b, of v err] assms(5) c h
  show ?thesis by simp
qed


theorem stop_injects_iff_missing_witness:
  \<open>thinkingBlocks (example_state ''fill_missing'') = Map.empty \<and>
   tracked_since example_runtime 0 [''data: '' @ start_payload] = Some False \<and>
   tracked_since example_runtime 0 [''data: '' @ start_payload, ''data: '' @ delta_payload] = Some True \<and>
   fst (GetRandomSignature example_translate example_pool None) = (''SIG-A'', None) \<and>
   fst (ProcessSSELine example_runtime
          (run example_runtime (example_state ''fill_missing'') [''data: '' @ start_payload])
          (''data: '' @ stop_payload)) =
     (''data: {"type":"content_block_stop","index":0}'',
      [''data: {"delta":{"signature":"SIG-A","type":"signature_delta"},"index":0,"type":"content_block_delta"}''],
      None) \<and>
   fst (ProcessSSELine example_runtime
          (run example_runtime (example_state ''fill_missing'')
             [''data: '' @ start_payload, ''data: '' @ delta_payload])
          (''data: '' @ stop_payload)) =
     (''data: {"type":"content_block_stop","index":0}'', [], None)\<close>
proof -
  let ?s0 = "example_state ''fill_missing''"
  let ?start = "''data: '' @ start_payload" and ?delta = "''data: '' @ delta_payload"
  let ?stop = "''data: '' @ stop_payload"
  let ?ev = "\<lparr>ev_Type = ''content_block_stop'', ev_Index = 0, ev_Delta = [], ev_ContentBlock = []\<rparr>"
  have b: "thinkingBlocks ?s0 = Map.empty"
    by (simp add: example_state_def NewSignatureStreamState_def)
  have e: "event_at example_runtime ?stop = Some ?ev"
    by (simp add: stream_defs line_defs example_defs)
  have t1: "tracked_since example_runtime 0 [?start] = Some False"
    by (simp add: stream_defs line_defs example_defs)
  have t2: "tracked_since example_runtime 0 [?start, ?delta] = Some True"
    by (simp add: stream_defs line_defs example_defs)
  have p: "fst (GetRandomSignature example_translate example_pool None) = (''SIG-A'', None)"
    by (simp add: pool_defs example_defs)
  have s1: "signaturePool (run example_runtime ?s0 [?start]) = example_pool"
    by (simp add: run_def ProcessSSELine_def line_defs handleContentBlockStart_def example_defs)
  have s2: "signaturePool (run example_runtime ?s0 [?start, ?delta]) = example_pool"
    by (simp add: run_def ProcessSSELine_def line_defs handleContentBlockStart_def
        handleContentBlockDelta_def example_defs)
  have c: "PoolFilter (config ?s0) = None" "Strategy (config ?s0) = ''fill_missing''"
    by (simp_all add: example_state_def NewSignatureStreamState_def example_config_def)
  have p1: "fst (pool_GetRandomSignature example_runtime (signaturePool (run example_runtime ?s0 [?start]))
                  (PoolFilter (config ?s0))) = (''SIG-A'', None)"
    unfolding s1 c using p by (simp add: example_runtime_def)
  have p2: "fst (pool_GetRandomSignature example_runtime (signaturePool (run example_runtime ?s0 [?start, ?delta]))
                  (PoolFilter (config ?s0))) = (''SIG-A'', None)"
    unfolding s2 c using p by (simp add: example_runtime_def)
  from stop_injects_iff_missing [OF b e _ _ p1, of False] stop_injects_iff_missing [OF b e _ _ p2, of True]
  show ?thesis
    using b t1 t2 p c
    by (simp add: stop_payload_def appendString_def byte_def strconv_Itoa_def digits.simps hex_digit_def)
qed

section \<open>The synthetic line\<close>

text \<open>
  Claim C2, as amended. For every index \<open>i\<close> and every value \<open>v\<close> the pool yields, the line
  generated for injection is \<^verbatim>\<open>data: \<close> followed by the compact JSON object whose members
  stand in the sorted order of their keys: \<^verbatim>\<open>delta\<close> (with \<^verbatim>\<open>signature\<close>, then \<^verbatim>\<open>type\<close>),
  \<^verbatim>\<open>index\<close>, \<^verbatim>\<open>type\<close>. The value is written as the encoder writes a string, the index
  in decimal.
\<close>

theorem synthetic_line_sorted_keys:
  assumes "fst (pool_GetRandomSignature R (signaturePool s) (PoolFilter (config s))) = (v, None)"
    and "v \<noteq> []"
  shows \<open>fst (generateSignatureDeltaLine R s i) =
           ''data: {"delta":{"signature":'' @ appendString v @ '',"type":"signature_delta"},"index":''
             @ strconv_Itoa i @ '',"type":"content_block_delta"}''\<close>
proof -
  obtain p where "pool_GetRandomSignature R (signaturePool s) (PoolFilter (config s)) = ((v, None), p)"
    using assms(1) by (cases "pool_GetRandomSignature R (signaturePool s) (PoolFilter (config s))") auto
  with assms(2) show ?thesis
    by (simp add: generateSignatureDeltaLine_def json_Marshal_def Let_def appendString_def byte_def)
qed

theorem synthetic_line_sorted_keys_witness:
  \<open>fst (GetRandomSignature example_translate example_pool None) = (''SIG-A'', None) \<and>
   fst (generateSignatureDeltaLine example_runtime (started_state ''fill_missing'') 0) =
     ''data: {"delta":{"signature":"SIG-A","type":"signature_delta"},"index":0,"type":"content_block_delta"}''\<close>
proof -
  let ?s = "started_state ''fill_missing''"
  have p: "fst (GetRandomSignature example_translate example_pool None) = (''SIG-A'', None)"
    by (simp add: pool_defs example_defs)
  have "signaturePool ?s = example_pool \<and> PoolFilter (config ?s) = None"
    by (simp add: started_state_def ProcessSSELine_def line_defs handleContentBlockStart_def example_defs)
  then have "fst (pool_GetRandomSignature example_runtime (signaturePool ?s) (PoolFilter (config ?s))) = (''SIG-A'', None)"
    using p by (simp add: example_runtime_def)
  from synthetic_line_sorted_keys [OF this, of 0] p show ?thesis
    by (simp add: appendString_def byte_def strconv_Itoa_def digits.simps hex_digit_def)
qed

text \<open>
  Claim C2 as stated fails: with the pool value \<^verbatim>\<open>SIG-A\<close> at index 0 the injected line is not
  the line of the specification, whose members stand in the order \<^verbatim>\<open>type\<close>, \<^verbatim>\<open>index\<close>,
  \<^verbatim>\<open>delta\<close>.
\<close>

theorem synthetic_line_counterexample:
  \<open>fst (ProcessSSELine example_runtime (started_state ''fill_missing'') (''data: '' @ stop_payload)) =
     (''data: '' @ stop_payload,
      [''data: {"delta":{"signature":"SIG-A","type":"signature_delta"},"index":0,"type":"content_block_delta"}''],
      None) \<and>
   ''data: {"delta":{"signature":"SIG-A","type":"signature_delta"},"index":0,"type":"content_block_delta"}''
     \<noteq> spec_signature_delta_line 0 ''SIG-A''\<close>
proof -
  let ?s = "started_state ''fill_missing''"
  have st: "?s = (example_state ''fill_missing'')\<lparr>thinkingBlocks := [0 \<mapsto>
      \<lparr>Index = 0, Started = True, HasSignatureDelta = False, ReceivedSignature = [], Stopped = False\<rparr>]\<rparr>"
    by (simp add: started_state_def ProcessSSELine_def line_defs handleContentBlockStart_def example_defs)
  obtain w where p: "GetRandomSignature example_translate example_pool None = ((''SIG-A'', None), w)"
    by (simp add: pool_defs example_defs)
  have 1: "fst (ProcessSSELine example_runtime ?s (''data: '' @ stop_payload)) =
     (''data: '' @ stop_payload,
      [''data: {\"delta\":{\"signature\":\"SIG-A\",\"type\":\"signature_delta\"},\"index\":0,\"type\":\"content_block_delta\"}''],
      None)"
    unfolding st
    by (simp add: ProcessSSELine_def line_defs handleContentBlockStop_def generateSignatureDeltaLine_def
        json_Marshal_def example_runtime_def example_Unmarshal_event_def example_state_def example_config_def
        NewSignatureStreamState_def start_payload_def delta_payload_def stop_payload_def Let_def p
        appendString_def byte_def strconv_Itoa_def digits.simps hex_digit_def)
  have 2: \<open>''data: {"delta":{"signature":"SIG-A","type":"signature_delta"},"index":0,"type":"content_block_delta"}''
     \<noteq> spec_signature_delta_line 0 ''SIG-A''\<close>
    by (simp add: spec_signature_delta_line_def)
  from 1 2 show ?thesis by simp
qed

section \<open>Lines that pass through\<close>

lemma start_line: "fst (handleContentBlockStart R s line data i raw) = line"
  by (simp add: handleContentBlockStart_def split: option.splits)

lemma stop_line: "fst (fst (handleContentBlockStop R s line i)) = line"
  by (simp add: handleContentBlockStop_def Let_def split: option.splits prod.splits)

lemma stop_extra_pool_fails:
  "fst (pool_GetRandomSignature R (signaturePool s) (PoolFilter (config s))) = (v, err) \<Longrightarrow>
   err \<noteq> None \<or> v = [] \<Longrightarrow> snd (fst (handleContentBlockStop R s line i)) = []"
  by (auto simp: handleContentBlockStop_def generateSignatureDeltaLine_def Let_def split: option.splits prod.splits)

lemma delta_line_cases:
  "fst (handleContentBlockDelta R s line data i raw) = line \<or>
   (\<exists>v nd. fst (pool_GetRandomSignature R (signaturePool s) (PoolFilter (config s))) = (v, None) \<and> v \<noteq> [] \<and>
      sjson_Set R (sseDataRegex_ReplaceAllString line) ''delta.signature'' v = Some nd \<and>
      fst (handleContentBlockDelta R s line data i raw) = ''data: '' @ nd)"
  by (auto simp: handleContentBlockDelta_def replaceSignatureInLine_def Let_def
      split: option.splits prod.splits)

text \<open>
  Claim C5. \<^verbatim>\<open>ProcessSSELine\<close> returns a nil error for every line. A line that does not begin
  with \<^verbatim>\<open>data:\<close>, a data line whose payload is empty or \<^verbatim>\<open>[DONE]\<close>, and a data line whose
  payload the decoder rejects are returned unchanged, with no extra line and the state as
  it was. When the pool fails (an error or an empty value) the line is returned unchanged
  with no extra line, and when \<^verbatim>\<open>sjson.Set\<close> fails on the pool's value the line is returned
  unchanged.
\<close>

theorem ProcessSSELine_never_fails:
  "snd (snd (fst (ProcessSSELine R s line))) = None \<and>
   (\<not> sseDataRegex_MatchString line \<or> sseDataRegex_ReplaceAllString line = [] \<or>
    sseDataRegex_ReplaceAllString line = ''[DONE]'' \<or>
    Unmarshal_event R (sseDataRegex_ReplaceAllString line) = None
      \<longrightarrow> ProcessSSELine R s line = ((line, [], None), s)) \<and>
   (fst (pool_GetRandomSignature R (signaturePool s) (PoolFilter (config s))) = (v, err) \<and>
    (err \<noteq> None \<or> v = [])
      \<longrightarrow> fst (ProcessSSELine R s line) = (line, [], None)) \<and>
   (fst (pool_GetRandomSignature R (signaturePool s) (PoolFilter (config s))) = (v, err) \<and>
    sjson_Set R (sseDataRegex_ReplaceAllString line) ''delta.signature'' v = None
      \<longrightarrow> fst (fst (ProcessSSELine R s line)) = line)"
proof (intro conjI impI)
  show "snd (snd (fst (ProcessSSELine R s line))) = None"
    by (simp add: ProcessSSELine_def Let_def split: option.splits prod.splits)
next
  assume "\<not> sseDataRegex_MatchString line \<or> sseDataRegex_ReplaceAllString line = [] \<or>
    sseDataRegex_ReplaceAllString line = ''[DONE]'' \<or>
    Unmarshal_event R (sseDataRegex_ReplaceAllString line) = None"
  then show "ProcessSSELine R s line = ((line, [], None), s)"
    by (auto simp: ProcessSSELine_def Let_def)
next
  assume a: "fst (pool_GetRandomSignature R (signaturePool s) (PoolFilter (config s))) = (v, err) \<and>
    (err \<noteq> None \<or> v = [])"
  have d: "fst (handleContentBlockDelta R s line data i raw) = line" for data i raw
    using delta_line_cases [of R s line data i raw] a by auto
  have e: "snd (fst (handleContentBlockStop R s line i)) = []" for i
    using stop_extra_pool_fails [of R s v err line i] a by simp
  show "fst (ProcessSSELine R s line) = (line, [], None)"
    using d e stop_line [of R s line] start_line [of R s line]
    by (simp add: ProcessSSELine_def Let_def split_beta split: option.splits)
next
  assume a: "fst (pool_GetRandomSignature R (signaturePool s) (PoolFilter (config s))) = (v, err) \<and>
    sjson_Set R (sseDataRegex_ReplaceAllString line) ''delta.signature'' v = None"
  have d: "fst (handleContentBlockDelta R s line data i raw) = line" for data i raw
    using delta_line_cases [of R s line data i raw] a by auto
  show "fst (fst (ProcessSSELine R s line)) = line"
    using d stop_line [of R s line] start_line [of R s line]
    by (simp add: ProcessSSELine_def Let_def split_beta split: option.splits)
qed


theorem ProcessSSELine_never_fails_witness:
  \<open>ProcessSSELine example_runtime (example_state ''always_replace'') '': ping'' =
     (('': ping'', [], None), example_state ''always_replace'') \<and>
   ProcessSSELine example_runtime (example_state ''always_replace'') ''data: [DONE]'' =
     ((''data: [DONE]'', [], None), example_state ''always_replace'') \<and>
   ProcessSSELine example_runtime (example_state ''always_replace'') ''data: {"type":'' =
     ((''data: {"type":'', [], None), example_state ''always_replace'') \<and>
   fst (GetRandomSignature example_translate empty_pool None) = ([], Some ErrSignaturePoolEmpty) \<and>
   fst (ProcessSSELine example_runtime ((example_state ''always_replace'')\<lparr>signaturePool := empty_pool\<rparr>)
          (''data: '' @ delta_payload)) = (''data: '' @ delta_payload, [], None) \<and>
   fst (GetRandomSignature example_translate example_pool None) = (''SIG-A'', None) \<and>
   fst (fst (ProcessSSELine silent_runtime (example_state ''always_replace'') (''data: '' @ delta_payload))) =
     ''data: '' @ delta_payload\<close>
proof -
  let ?s = "example_state ''always_replace''"
  let ?t = "(example_state ''always_replace'')\<lparr>signaturePool := empty_pool\<rparr>"
  have 1: "\<not> sseDataRegex_MatchString '': ping''"
    by (simp add: line_defs)
  have 2: "sseDataRegex_ReplaceAllString ''data: [DONE]'' = ''[DONE]''"
    by (simp add: line_defs)
  have 3: \<open>Unmarshal_event example_runtime (sseDataRegex_ReplaceAllString ''data: {"type":'') = None\<close>
    by (simp add: line_defs example_defs)
  have 4: "fst (GetRandomSignature example_translate empty_pool None) = ([], Some ErrSignaturePoolEmpty)"
    by (simp add: pool_defs example_defs)
  then have q4: "fst (pool_GetRandomSignature example_runtime (signaturePool ?t) (PoolFilter (config ?t)))
                  = ([], Some ErrSignaturePoolEmpty)"
    by (simp add: example_runtime_def example_state_def NewSignatureStreamState_def example_config_def)
  have 5: "fst (GetRandomSignature example_translate example_pool None) = (''SIG-A'', None)"
    by (simp add: pool_defs example_defs)
  then have q5: "fst (pool_GetRandomSignature silent_runtime (signaturePool ?s) (PoolFilter (config ?s)))
                  = (''SIG-A'', None)"
    by (simp add: silent_runtime_def example_runtime_def example_state_def NewSignatureStreamState_def
        example_config_def)
  have 6: "sjson_Set silent_runtime (sseDataRegex_ReplaceAllString (''data: '' @ delta_payload))
             ''delta.signature'' ''SIG-A'' = None"
    by (simp add: silent_runtime_def)
  show ?thesis
    using ProcessSSELine_never_fails [of example_runtime ?s "'': ping''"]
      ProcessSSELine_never_fails [of example_runtime ?s "''data: [DONE]''"]
      ProcessSSELine_never_fails [of example_runtime ?s "''data: {\"type\":''"]
      ProcessSSELine_never_fails [of example_runtime ?t "''data: '' @ delta_payload" "[]" "Some ErrSignaturePoolEmpty"]
      ProcessSSELine_never_fails [of silent_runtime ?s "''data: '' @ delta_payload" "''SIG-A''" None]
      1 2 3 4 q4 5 q5 6
    by simp
qed

section \<open>A signature delta outside a tracked block\<close>

lemma delta_at_untracked_index:
  assumes "event_at R line = Some ev"
    and "ev_Type ev = ''content_block_delta''"
    and "Unmarshal_delta R (ev_Delta ev) = Some dl"
    and "d_Type dl = ''signature_delta''"
    and "thinkingBlocks s (ev_Index ev) = None"
  shows "thinkingBlocks (snd (ProcessSSELine R s line)) = thinkingBlocks s"
    and "collector (snd (ProcessSSELine R s line)) = collector s"
    and "mem (snd (ProcessSSELine R s line)) = mem s"
    and "Strategy (config s) = ''always_replace'' \<Longrightarrow>
         fst (pool_GetRandomSignature R (signaturePool s) (PoolFilter (config s))) = (v, None) \<Longrightarrow>
         v \<noteq> [] \<Longrightarrow>
         sjson_Set R (sseDataRegex_ReplaceAllString line) ''delta.signature'' v = Some newData \<Longrightarrow>
         fst (ProcessSSELine R s line) = (''data: '' @ newData, [], None)"
proof -
  from assms(1) have e: "sseDataRegex_MatchString line" "sseDataRegex_ReplaceAllString line \<noteq> []"
    "sseDataRegex_ReplaceAllString line \<noteq> ''[DONE]''"
    "Unmarshal_event R (sseDataRegex_ReplaceAllString line) = Some ev"
    by (auto simp: event_at_def split: if_splits)
  show "thinkingBlocks (snd (ProcessSSELine R s line)) = thinkingBlocks s"
    and "collector (snd (ProcessSSELine R s line)) = collector s"
    and "mem (snd (ProcessSSELine R s line)) = mem s"
    using e assms(2-5)
    by (simp_all add: ProcessSSELine_def handleContentBlockDelta_def replaceSignatureInLine_def
        Let_def split_beta split: option.splits)
  show "fst (ProcessSSELine R s line) = (''data: '' @ newData, [], None)"
    if "Strategy (config s) = ''always_replace''"
      and "fst (pool_GetRandomSignature R (signaturePool s) (PoolFilter (config s))) = (v, None)"
      and "v \<noteq> []"
      and "sjson_Set R (sseDataRegex_ReplaceAllString line) ''delta.signature'' v = Some newData"
    using e assms(2-5) that
    by (simp add: ProcessSSELine_def handleContentBlockDelta_def replaceSignatureInLine_def Let_def split_beta)
qed

lemma stop_at_untracked_index:
  assumes "event_at R stop = Some ev"
    and "ev_Type ev = ''content_block_stop''"
    and "thinkingBlocks s (ev_Index ev) = None"
  shows "ProcessSSELine R s stop = ((stop, [], None), s)"
proof -
  from assms(1) have e: "sseDataRegex_MatchString stop" "sseDataRegex_ReplaceAllString stop \<noteq> []"
    "sseDataRegex_ReplaceAllString stop \<noteq> ''[DONE]''"
    "Unmarshal_event R (sseDataRegex_ReplaceAllString stop) = Some ev"
    by (auto simp: event_at_def split: if_splits)
  with assms(2,3) show ?thesis
    by (simp add: ProcessSSELine_def handleContentBlockStop_def Let_def)
qed

text \<open>
  Claim C10. When the stream so far opened no thinking block at an index, a
  \<^verbatim>\<open>content_block_delta\<close> of type \<^verbatim>\<open>signature_delta\<close> at that index leaves the block map, the
  collector and its store as they were (no state is recorded, \<^verbatim>\<open>Collect\<close> is not called),
  and the index stays untracked. Under \<^verbatim>\<open>always_replace\<close> the line is still rewritten with
  the pool's value where the pool yields one and \<^verbatim>\<open>sjson.Set\<close> succeeds. A
  \<^verbatim>\<open>content_block_stop\<close> at the index right after it is returned unchanged with no extra
  line, and leaves the state as it was.
\<close>

theorem untracked_signature_delta:
  assumes "thinkingBlocks s0 = Map.empty"
    and "tracked_since R (ev_Index ev) lines = None"
    and "event_at R line = Some ev"
    and "ev_Type ev = ''content_block_delta''"
    and "Unmarshal_delta R (ev_Delta ev) = Some dl"
    and "d_Type dl = ''signature_delta''"
  shows "thinkingBlocks (run R s0 (lines @ [line])) = thinkingBlocks (run R s0 lines) \<and>
         collector (run R s0 (lines @ [line])) = collector (run R s0 lines) \<and>
         mem (run R s0 (lines @ [line])) = mem (run R s0 lines) \<and>
         tracked_since R (ev_Index ev) (lines @ [line]) = None \<and>
         (Strategy (config s0) = ''always_replace'' \<and>
          fst (pool_GetRandomSignature R (signaturePool (run R s0 lines)) (PoolFilter (config s0))) = (v, None) \<and>
          v \<noteq> [] \<and>
          sjson_Set R (sseDataRegex_ReplaceAllString line) ''delta.signature'' v = Some newData
            \<longrightarrow> fst (ProcessSSELine R (run R s0 lines) line) = (''data: '' @ newData, [], None)) \<and>
         (event_at R stop = Some ev' \<and> ev_Type ev' = ''content_block_stop'' \<and> ev_Index ev' = ev_Index ev
            \<longrightarrow> ProcessSSELine R (run R s0 (lines @ [line])) stop =
                  ((stop, [], None), run R s0 (lines @ [line])))"
proof -
  let ?s = "run R s0 lines" and ?s' = "run R s0 (lines @ [line])"
  have u: "thinkingBlocks ?s (ev_Index ev) = None"
    using tracking_follows_stream [OF assms(1), of R lines "ev_Index ev"] assms(2) by simp
  have c: "config ?s = config s0"
    by (rule run_config)
  note d = delta_at_untracked_index [OF assms(3-6) u]
  have frame: "thinkingBlocks ?s' = thinkingBlocks ?s" "collector ?s' = collector ?s" "mem ?s' = mem ?s"
    using d(1-3) by (simp_all add: run_snoc)
  have still: "tracked_since R (ev_Index ev) (lines @ [line]) = None"
    using tracking_follows_stream [OF assms(1), of R "lines @ [line]" "ev_Index ev"] frame(1) u by simp
  have repl: "fst (ProcessSSELine R ?s line) = (''data: '' @ newData, [], None)"
    if "Strategy (config s0) = ''always_replace''"
      and "fst (pool_GetRandomSignature R (signaturePool ?s) (PoolFilter (config s0))) = (v, None)"
      and "v \<noteq> []"
      and "sjson_Set R (sseDataRegex_ReplaceAllString line) ''delta.signature'' v = Some newData"
    using d(4) [of v newData] that c by simp
  have stop: "ProcessSSELine R ?s' stop = ((stop, [], None), ?s')"
    if "event_at R stop = Some ev'" and "ev_Type ev' = ''content_block_stop''"
      and "ev_Index ev' = ev_Index ev"
    using stop_at_untracked_index [OF that(1,2), of ?s'] that(3) frame(1) u by simp
  from frame still repl stop show ?thesis by blast
qed


theorem untracked_signature_delta_witness:
  \<open>thinkingBlocks (example_state ''always_replace'') = Map.empty \<and>
   tracked_since example_runtime 0 ['': ping''] = None \<and>
   fst (GetRandomSignature example_translate example_pool None) = (''SIG-A'', None) \<and>
   fst (ProcessSSELine example_runtime
          (run example_runtime (example_state ''always_replace'') ['': ping''])
          (''data: '' @ delta_payload)) =
     (''data: {"type":"content_block_delta","index":0,"delta":{"type":"signature_delta","signature":"SIG-A"}}'',
      [], None) \<and>
   thinkingBlocks (run example_runtime (example_state ''always_replace'') ['': ping'', ''data: '' @ delta_payload])
     = Map.empty \<and>
   fst (ProcessSSELine example_runtime
          (run example_runtime (example_state ''always_replace'') ['': ping'', ''data: '' @ delta_payload])
          (''data: '' @ stop_payload)) = (''data: '' @ stop_payload, [], None)\<close>
proof -
  let ?s0 = "example_state ''always_replace''"
  let ?line = "''data: '' @ delta_payload"
  let ?stop = "''data: '' @ stop_payload"
  let ?ev = "\<lparr>ev_Type = ''content_block_delta'', ev_Index = 0,
              ev_Delta = ''{\"type\":\"signature_delta\",\"signature\":\"UPSTREAM\"}'', ev_ContentBlock = []\<rparr>"
  let ?ev' = "\<lparr>ev_Type = ''content_block_stop'', ev_Index = 0, ev_Delta = [], ev_ContentBlock = []\<rparr>"
  let ?dl = "\<lparr>d_Type = ''signature_delta'', d_Signature = ''UPSTREAM''\<rparr>"
  let ?new = "''{\"type\":\"content_block_delta\",\"index\":0,\"delta\":{\"type\":\"signature_delta\",\"signature\":\"SIG-A\"}}''"
  have b: "thinkingBlocks ?s0 = Map.empty"
    by (simp add: example_state_def NewSignatureStreamState_def)
  have t: "tracked_since example_runtime (ev_Index ?ev) ['': ping''] = None"
    by (simp add: stream_defs line_defs example_defs)
  have e: "event_at example_runtime ?line = Some ?ev" "event_at example_runtime ?stop = Some ?ev'"
    "Unmarshal_delta example_runtime (ev_Delta ?ev) = Some ?dl"
    by (simp_all add: stream_defs line_defs example_defs)
  have r: "run example_runtime ?s0 ['': ping''] = ?s0"
    by (simp add: run_def ProcessSSELine_def line_defs)
  have c: "PoolFilter (config ?s0) = None" "Strategy (config ?s0) = ''always_replace''"
    "signaturePool ?s0 = example_pool"
    by (simp_all add: example_state_def NewSignatureStreamState_def example_config_def)
  have p: "fst (GetRandomSignature example_translate example_pool None) = (''SIG-A'', None)"
    by (simp add: pool_defs example_defs)
  have q: "fst (pool_GetRandomSignature example_runtime (signaturePool (run example_runtime ?s0 ['': ping'']))
                  (PoolFilter (config ?s0))) = (''SIG-A'', None)"
    unfolding r c using p by (simp add: example_runtime_def)
  have j: "sjson_Set example_runtime (sseDataRegex_ReplaceAllString ?line) ''delta.signature'' ''SIG-A'' = Some ?new"
    by (simp add: line_defs example_runtime_def example_sjson_Set_def delta_payload_def)
  from untracked_signature_delta [OF b t e(1) _ e(3), where v = "''SIG-A''" and newData = ?new
      and stop = ?stop and ev' = ?ev']
  show ?thesis
    using b t e p q j c r by simp
qed

section \<open>The collector\<close>

lemma go_append_contents:
  assumes "slice_ok h s" and "go_append g h s x = (s', h')"
  shows "slice_contents h' s' = slice_contents h s @ [x]" and "slice_ok h' s'"
  using assms
  by (auto simp: go_append_def slice_ok_def slice_contents_def Let_def take_Suc_conv_app_nth
           split: option.splits if_splits)

lemma go_append_other:
  assumes "slice_ok h t" and "sl_array t \<noteq> sl_array s" and "go_append g h s x = (s', h')"
  shows "slice_contents h' t = slice_contents h t" and "slice_ok h' t"
  using assms
  by (auto simp: go_append_def slice_ok_def slice_contents_def Let_def
           split: option.splits if_splits)

lemma GetCollected_fresh:
  assumes "slice_ok h (signatures c)" and "GetCollected c h = (r, h')"
  shows "slice_contents h' r = slice_contents h (signatures c)"
    and "slice_contents h' (signatures c) = slice_contents h (signatures c)"
    and "sl_array r \<noteq> sl_array (signatures c)"
    and "slice_ok h' r" and "slice_ok h' (signatures c)"
  using assms
  by (auto simp: GetCollected_def go_make_def go_copy_def slice_ok_def slice_contents_def Let_def
           split: option.splits if_splits prod.splits)

lemma slice_set_other:
  assumes "sl_array t \<noteq> sl_array r" and "slice_set h r i x = Some h'"
  shows "slice_contents h' t = slice_contents h t"
  using assms
  by (auto simp: slice_set_def slice_contents_def split: option.splits if_splits)

lemma CollectSig_cases:
  assumes "slice_ok h (signatures c)" and "CollectSig g c v h = (c', h')"
  shows "slice_ok h' (signatures c')" and "minLength c' = minLength c"
    and "minLength c < int (length v) \<Longrightarrow> slice_contents h' (signatures c') = slice_contents h (signatures c) @ [v]"
    and "\<not> minLength c < int (length v) \<Longrightarrow> c' = c \<and> h' = h"
  using assms go_append_contents [of h "signatures c" g v]
  by (auto simp: CollectSig_def Let_def split: if_splits prod.splits)

lemma CollectSig_other:
  assumes "slice_ok h t" and "sl_array t \<noteq> sl_array (signatures c)" and "CollectSig g c v h = (c', h')"
  shows "slice_contents h' t = slice_contents h t"
  using assms go_append_other [of h t "signatures c" g v]
  by (auto simp: CollectSig_def Let_def split: if_splits prod.splits)

text \<open>
  Claim C7. A collector built with a minimum length that is not positive has the minimum
  350. \<^verbatim>\<open>Collect(v)\<close> appends \<open>v\<close> to the collected values if and only if the length of
  \<open>v\<close> is strictly greater than the minimum length, and otherwise leaves the collector and
  the store as they were; a value collected twice is appended twice. \<^verbatim>\<open>GetCollected\<close>
  returns the collected values in collection order in an array of its own: writing
  through the result leaves the collector's values as they were, and collecting further
  values leaves the result as it was.
\<close>

theorem Collect_keeps_longer_values:
  assumes "slice_ok h (signatures c)"
  shows "minLength (fst (NewSignatureCollector hp acct model n)) = (if n \<le> 0 then 350 else n) \<and>
         slice_contents (snd (NewSignatureCollector hp acct model n))
           (signatures (fst (NewSignatureCollector hp acct model n))) = [] \<and>
         (case CollectSig g c v h of (c', h') \<Rightarrow>
            slice_ok h' (signatures c') \<and> minLength c' = minLength c \<and>
            (if minLength c < int (length v)
             then slice_contents h' (signatures c') = slice_contents h (signatures c) @ [v]
             else c' = c \<and> h' = h) \<and>
            (case CollectSig g c' v h' of (c'', h'') \<Rightarrow>
               if minLength c < int (length v)
               then slice_contents h'' (signatures c'') = slice_contents h (signatures c) @ [v, v]
               else c'' = c \<and> h'' = h)) \<and>
         (case GetCollected c h of (r, h') \<Rightarrow>
            slice_contents h' r = slice_contents h (signatures c) \<and>
            slice_contents h' (signatures c) = slice_contents h (signatures c) \<and>
            sl_array r \<noteq> sl_array (signatures c) \<and>
            (\<forall>i x h''. slice_set h' r i x = Some h''
               \<longrightarrow> slice_contents h'' (signatures c) = slice_contents h (signatures c)) \<and>
            (\<forall>w. slice_contents (snd (CollectSig g c w h')) r = slice_contents h' r))"
proof (intro conjI)
  show "minLength (fst (NewSignatureCollector hp acct model n)) = (if n \<le> 0 then 350 else n)"
    by (simp add: NewSignatureCollector_def go_make_def)
  show "slice_contents (snd (NewSignatureCollector hp acct model n))
           (signatures (fst (NewSignatureCollector hp acct model n))) = []"
    by (simp add: NewSignatureCollector_def go_make_def slice_contents_def)
  show "case CollectSig g c v h of (c', h') \<Rightarrow>
            slice_ok h' (signatures c') \<and> minLength c' = minLength c \<and>
            (if minLength c < int (length v)
             then slice_contents h' (signatures c') = slice_contents h (signatures c) @ [v]
             else c' = c \<and> h' = h) \<and>
            (case CollectSig g c' v h' of (c'', h'') \<Rightarrow>
               if minLength c < int (length v)
               then slice_contents h'' (signatures c'') = slice_contents h (signatures c) @ [v, v]
               else c'' = c \<and> h'' = h)"
  proof (cases "CollectSig g c v h")
    case (Pair c' h')
    note one = CollectSig_cases [OF assms Pair]
    obtain c'' h'' where two: "CollectSig g c' v h' = (c'', h'')"
      by (cases "CollectSig g c' v h'") auto
    note again = CollectSig_cases [OF one(1) two]
    from one again Pair two show ?thesis by auto
  qed
  show "case GetCollected c h of (r, h') \<Rightarrow>
            slice_contents h' r = slice_contents h (signatures c) \<and>
            slice_contents h' (signatures c) = slice_contents h (signatures c) \<and>
            sl_array r \<noteq> sl_array (signatures c) \<and>
            (\<forall>i x h''. slice_set h' r i x = Some h''
               \<longrightarrow> slice_contents h'' (signatures c) = slice_contents h (signatures c)) \<and>
            (\<forall>w. slice_contents (snd (CollectSig g c w h')) r = slice_contents h' r)"
  proof (cases "GetCollected c h")
    case (Pair r h')
    note f = GetCollected_fresh [OF assms Pair]
    have a: "slice_contents h'' (signatures c) = slice_contents h (signatures c)"
      if "slice_set h' r i x = Some h''" for i x h''
      using slice_set_other [of "signatures c" r h' i x h''] that f(2,3) by simp
    have b: "slice_contents (snd (CollectSig g c w h')) r = slice_contents h' r" for w
      using CollectSig_other [of h' r c g w] f(3,4) by (cases "CollectSig g c w h'") auto
    from f a b Pair show ?thesis by auto
  qed
qed


theorem Collect_keeps_longer_values_witness:
  "slice_ok (snd example_collector) (signatures (fst example_collector)) \<and>
   minLength (fst (NewSignatureCollector heap0 7 None 0)) = 350 \<and>
   slice_contents (snd example_collector) (signatures (fst example_collector)) = [''abcdef''] \<and>
   CollectSig (\<lambda>c n. 2 * c) (fst example_collector) ''abc'' (snd example_collector) = example_collector \<and>
   (case CollectSig (\<lambda>c n. 2 * c) (fst example_collector) ''abcdef'' (snd example_collector) of (c', h') \<Rightarrow>
      slice_contents h' (signatures c') = [''abcdef'', ''abcdef'']) \<and>
   (case GetCollected (fst example_collector) (snd example_collector) of (r, h') \<Rightarrow>
      slice_contents h' r = [''abcdef''] \<and>
      (case slice_set h' r 0 ''changed'' of
         None \<Rightarrow> False
       | Some h'' \<Rightarrow> slice_contents h'' r = [''changed''] \<and>
                    slice_contents h'' (signatures (fst example_collector)) = [''abcdef'']) \<and>
      slice_contents (snd (CollectSig (\<lambda>c n. 2 * c) (fst example_collector) ''ghijkl'' h')) r = [''abcdef''])"
proof -
  let ?g = "\<lambda>c n::nat. 2 * c"
  let ?c = "fst example_collector" and ?h = "snd example_collector"
  have ok: "slice_ok ?h (signatures ?c)"
    by (simp add: example_collector_def NewSignatureCollector_def heap0_def go_make_def CollectSig_def
        go_append_def slice_ok_def Let_def)
  have m: "minLength ?c = 5"
    by (simp add: example_collector_def NewSignatureCollector_def heap0_def go_make_def CollectSig_def
        go_append_def Let_def)
  have c: "slice_contents ?h (signatures ?c) = [''abcdef'']"
    by (simp add: example_collector_def NewSignatureCollector_def heap0_def go_make_def CollectSig_def
        go_append_def slice_contents_def Let_def)
  obtain r h' where g: "GetCollected ?c ?h = (r, h')"
    by (cases "GetCollected ?c ?h") auto
  have len: "sl_len r = 1 \<and> h_arrays h' (sl_array r) = Some [''abcdef'']"
    using g
    by (auto simp: example_collector_def NewSignatureCollector_def heap0_def go_make_def CollectSig_def
        go_append_def GetCollected_def go_copy_def slice_contents_def Let_def)
  then obtain h'' where w: "slice_set h' r 0 ''changed'' = Some h''"
    and w': "slice_contents h'' r = [''changed'']"
    by (simp add: slice_set_def slice_contents_def)
  from Collect_keeps_longer_values [OF ok, where hp = heap0 and acct = 7 and model = None and n = 0
        and g = ?g and v = "''abc''"]
    Collect_keeps_longer_values [OF ok, where hp = heap0 and acct = 7 and model = None and n = 0
        and g = ?g and v = "''abcdef''"]
  show ?thesis
    using ok m c g w w' by (auto split: prod.splits)
qed

section \<open>The pool\<close>

lemma cache_valid_frame:
  "rng (snd (cache_valid w)) = rng w \<and> rng_used (snd (cache_valid w)) = rng_used w \<and>
   started (snd (cache_valid w)) = started w \<and> cachedSigs (snd (cache_valid w)) = cachedSigs w \<and>
   cacheExpiry (snd (cache_valid w)) = cacheExpiry w \<and> repo (snd (cache_valid w)) = repo w \<and>
   clock (snd (cache_valid w)) = clock w \<and> cacheTTL (snd (cache_valid w)) = cacheTTL w"
  by (simp add: cache_valid_def time_Now_def Let_def)

lemma reloadCache_frame:
  "rng (snd (reloadCache tr w)) = rng w \<and> rng_used (snd (reloadCache tr w)) = rng_used w \<and>
   started (snd (reloadCache tr w)) = started w \<and>
   fst (reloadCache tr w) = cachedSigs (snd (reloadCache tr w))"
  by (simp add: reloadCache_def time_Now_def Let_def split_beta cache_valid_frame split: option.splits)

lemma getCachedSignatures_frame:
  "rng (snd (getCachedSignatures tr w)) = rng w \<and> rng_used (snd (getCachedSignatures tr w)) = rng_used w \<and>
   started (snd (getCachedSignatures tr w)) = started w \<and>
   fst (getCachedSignatures tr w) = cachedSigs (snd (getCachedSignatures tr w))"
  by (simp add: getCachedSignatures_def Let_def split_beta cache_valid_frame reloadCache_frame)

lemma filterSignatures_subset: "set (filterSignatures sigs flt) \<subseteq> set sigs"
  by (auto simp: filterSignatures_def Let_def split: option.splits)

lemma filterSignatures_nonempty: "sigs \<noteq> [] \<Longrightarrow> filterSignatures sigs flt \<noteq> []"
  by (auto simp: filterSignatures_def Let_def split: option.splits)

lemma filterSignatures_models:
  assumes "Models f \<noteq> []"
  shows "filterSignatures sigs (Some f) =
           (if \<exists>x\<in>set sigs. eligible f x then filter (eligible f) sigs else sigs)"
proof -
  have e: "(\<lambda>sg. case cs_Model sg of None \<Rightarrow> True | Some m \<Rightarrow> m \<in> set (Models f)) = eligible f"
    by (simp add: eligible_def fun_eq_iff)
  have "filterSignatures sigs (Some f) =
          (let result = filter (eligible f) sigs in if length result = 0 then sigs else result)"
    using assms by (simp add: filterSignatures_def e Let_def)
  then show ?thesis
    by (auto simp: Let_def filter_empty_conv)
qed

lemma GetRandomSignature_selects:
  assumes "fst (getCachedSignatures tr w) = sigs" and "sigs \<noteq> []"
  shows "GetRandomSignature tr w flt =
           (let filtered = filterSignatures sigs flt;
                sel = filtered ! (rng w (rng_used w) mod length filtered);
                w1 = snd (getCachedSignatures tr w)
            in ((cs_Value sel, None), w1\<lparr>rng_used := Suc (rng_used w), started := started w @ [cs_ID sel]\<rparr>))"
  using assms filterSignatures_nonempty [of sigs flt] getCachedSignatures_frame [of tr w]
  by (simp add: GetRandomSignature_def Let_def split_beta rng_Intn_def)

text \<open>
  Claim C3. On a snapshot that is not empty and a filter whose model list is not empty,
  \<^verbatim>\<open>GetRandomSignature\<close> returns the value of a signature of the snapshot (and hands its
  id to \<^verbatim>\<open>MarkUsed\<close>), drawn from the filtered list. When the snapshot holds an eligible
  signature, the filtered list is exactly the eligible signatures, so the selected one has
  no model or a model of the filter; when it holds none, the filtered list is the whole
  snapshot (degradation). A signature without a model is in the filtered list in either
  case.
\<close>

theorem filter_restricts_selection:
  assumes "fst (getCachedSignatures tr w) = sigs" and "sigs \<noteq> []" and "Models f \<noteq> []"
  shows "(let filtered = filterSignatures sigs (Some f);
              sel = filtered ! (rng w (rng_used w) mod length filtered)
          in fst (GetRandomSignature tr w (Some f)) = (cs_Value sel, None) \<and>
             started (snd (GetRandomSignature tr w (Some f))) = started w @ [cs_ID sel] \<and>
             sel \<in> set sigs \<and>
             (if \<exists>x\<in>set sigs. eligible f x
              then eligible f sel \<and> filtered = filter (eligible f) sigs
              else filtered = sigs) \<and>
             (\<forall>x\<in>set sigs. cs_Model x = None \<longrightarrow> x \<in> set filtered))"
proof -
  let ?filtered = "filterSignatures sigs (Some f)"
  let ?sel = "?filtered ! (rng w (rng_used w) mod length ?filtered)"
  have ne: "?filtered \<noteq> []"
    using assms(2) by (rule filterSignatures_nonempty)
  then have mem: "?sel \<in> set ?filtered"
    by simp
  then have sub: "?sel \<in> set sigs"
    using filterSignatures_subset by blast
  have el: "eligible f ?sel \<and> ?filtered = filter (eligible f) sigs" if "\<exists>x\<in>set sigs. eligible f x"
    using that mem filterSignatures_models [OF assms(3), of sigs] by auto
  have de: "?filtered = sigs" if "\<not> (\<exists>x\<in>set sigs. eligible f x)"
    using that filterSignatures_models [OF assms(3), of sigs] by auto
  have nil: "\<forall>x\<in>set sigs. cs_Model x = None \<longrightarrow> x \<in> set ?filtered"
    using filterSignatures_models [OF assms(3), of sigs] by (auto simp: eligible_def)
  have res: "fst (GetRandomSignature tr w (Some f)) = (cs_Value ?sel, None)"
    "started (snd (GetRandomSignature tr w (Some f))) = started w @ [cs_ID ?sel]"
    using GetRandomSignature_selects [OF assms(1,2), of "Some f"] by (simp_all add: Let_def)
  have c: "if \<exists>x\<in>set sigs. eligible f x
           then eligible f ?sel \<and> ?filtered = filter (eligible f) sigs
           else ?filtered = sigs"
  proof (cases "\<exists>x\<in>set sigs. eligible f x")
    case True
    show ?thesis by (subst if_P [OF True]) (rule el [OF True])
  next
    case False
    show ?thesis by (subst if_not_P [OF False]) (rule de [OF False])
  qed
  show ?thesis
    unfolding Let_def using res sub c nil by (intro conjI)
qed


theorem filter_restricts_selection_witness:
  "fst (getCachedSignatures example_translate models_pool) =
     [\<lparr>cs_ID = 1, cs_Value = ''S1'', cs_Model = Some ''m1''\<rparr>,
      \<lparr>cs_ID = 2, cs_Value = ''S2'', cs_Model = None\<rparr>,
      \<lparr>cs_ID = 3, cs_Value = ''S3'', cs_Model = Some ''m2''\<rparr>] \<and>
   filterSignatures (fst (getCachedSignatures example_translate models_pool)) (Some \<lparr>Models = [''m2'']\<rparr>) =
     [\<lparr>cs_ID = 2, cs_Value = ''S2'', cs_Model = None\<rparr>,
      \<lparr>cs_ID = 3, cs_Value = ''S3'', cs_Model = Some ''m2''\<rparr>] \<and>
   fst (GetRandomSignature example_translate models_pool (Some \<lparr>Models = [''m2'']\<rparr>)) = (''S3'', None) \<and>
   started (snd (GetRandomSignature example_translate models_pool (Some \<lparr>Models = [''m2'']\<rparr>))) = [3] \<and>
   fst (getCachedSignatures example_translate single_pool) =
     [\<lparr>cs_ID = 1, cs_Value = ''S1'', cs_Model = Some ''m1''\<rparr>] \<and>
   fst (GetRandomSignature example_translate single_pool (Some \<lparr>Models = [''m2'']\<rparr>)) = (''S1'', None)"
proof -
  let ?f = "\<lparr>Models = [''m2'']\<rparr>"
  let ?sigs = "[\<lparr>cs_ID = 1, cs_Value = ''S1'', cs_Model = Some ''m1''\<rparr>,
      \<lparr>cs_ID = 2, cs_Value = ''S2'', cs_Model = None\<rparr>,
      \<lparr>cs_ID = 3, cs_Value = ''S3'', cs_Model = Some ''m2''\<rparr>]"
  let ?one = "[\<lparr>cs_ID = 1, cs_Value = ''S1'', cs_Model = Some ''m1''\<rparr>]"
  have a: "fst (getCachedSignatures example_translate models_pool) = ?sigs"
    by (simp add: pool_defs pool_examples example_defs)
  have b: "fst (getCachedSignatures example_translate single_pool) = ?one"
    by (simp add: pool_defs pool_examples example_defs)
  have fa: "filterSignatures ?sigs (Some ?f) = [\<lparr>cs_ID = 2, cs_Value = ''S2'', cs_Model = None\<rparr>,
      \<lparr>cs_ID = 3, cs_Value = ''S3'', cs_Model = Some ''m2''\<rparr>]"
    by (simp add: filterSignatures_def)
  have fb: "filterSignatures ?one (Some ?f) = ?one"
    by (simp add: filterSignatures_def)
  have r: "rng models_pool (rng_used models_pool) = 1" "rng single_pool (rng_used single_pool) = 0"
    "started models_pool = []"
    by (simp_all add: pool_examples example_pool_def)
  from filter_restricts_selection [OF a, of ?f] filter_restricts_selection [OF b, of ?f]
  show ?thesis
    using a b fa fb r by (simp add: Let_def)
qed

lemma GetRandomSignature_empty:
  assumes "fst (getCachedSignatures tr w) = []"
  shows "GetRandomSignature tr w flt = (([], Some ErrSignaturePoolEmpty), snd (getCachedSignatures tr w))"
  using assms by (simp add: GetRandomSignature_def Let_def split_beta)

lemma reload_fails:
  assumes "cachedSigs w = [] \<or> (\<forall>n. cacheExpiry w \<le> clock w n)"
    and "faults (repo w) = Some e # fs"
  shows "fst (getCachedSignatures tr w) = cachedSigs w"
    and "cachedSigs (snd (getCachedSignatures tr w)) = cachedSigs w"
    and "cacheExpiry (snd (getCachedSignatures tr w)) = cacheExpiry w"
    and "calls (repo (snd (getCachedSignatures tr w))) = calls (repo w) @ [CallListActive 1000]"
proof -
  have v: "\<not> fst (cache_valid w)"
    using assms(1) by (auto simp: cache_valid_def time_Now_def Let_def not_less)
  have c: "cachedSigs (snd (cache_valid w)) = [] \<or>
           (\<forall>n. cacheExpiry (snd (cache_valid w)) \<le> clock (snd (cache_valid w)) n)"
    using assms(1) by (simp add: cache_valid_frame)
  have v': "\<not> fst (cache_valid (snd (cache_valid w)))"
    using c by (auto simp: cache_valid_def time_Now_def Let_def not_less)
  have r: "repo (snd (cache_valid (snd (cache_valid w)))) = repo w"
    "cachedSigs (snd (cache_valid (snd (cache_valid w)))) = cachedSigs w"
    "cacheExpiry (snd (cache_valid (snd (cache_valid w)))) = cacheExpiry w"
    by (simp_all add: cache_valid_frame)
  show "fst (getCachedSignatures tr w) = cachedSigs w"
    and "cachedSigs (snd (getCachedSignatures tr w)) = cachedSigs w"
    and "cacheExpiry (snd (getCachedSignatures tr w)) = cacheExpiry w"
    and "calls (repo (snd (getCachedSignatures tr w))) = calls (repo w) @ [CallListActive 1000]"
    using v v' r assms(2)
    by (simp_all add: getCachedSignatures_def reloadCache_def repo_ListActive_def round_trip_def
        Let_def split_beta)
qed

lemma GetRandomSignature_frame:
  "cachedSigs (snd (GetRandomSignature tr w flt)) = cachedSigs (snd (getCachedSignatures tr w)) \<and>
   cacheExpiry (snd (GetRandomSignature tr w flt)) = cacheExpiry (snd (getCachedSignatures tr w)) \<and>
   repo (snd (GetRandomSignature tr w flt)) = repo (snd (getCachedSignatures tr w))"
  by (simp add: GetRandomSignature_def Let_def split_beta rng_Intn_def)

text \<open>
  Claim C4. \<^verbatim>\<open>GetRandomSignature\<close> returns \<^verbatim>\<open>ErrSignaturePoolEmpty\<close> if and only if the
  snapshot obtained by \<^verbatim>\<open>getCachedSignatures\<close> is empty; otherwise it returns the value of
  a signature of the snapshot and no error. When the snapshot is empty or expired, so
  that a reload is attempted, and \<^verbatim>\<open>ListActive\<close> fails, the snapshot and its expiry stay
  as they were, and a snapshot that is not empty still yields a value.
\<close>

theorem PoolEmpty_iff_empty_snapshot:
  "(snd (fst (GetRandomSignature tr w flt)) = Some ErrSignaturePoolEmpty
      \<longleftrightarrow> fst (getCachedSignatures tr w) = []) \<and>
   (fst (getCachedSignatures tr w) \<noteq> [] \<longrightarrow>
      snd (fst (GetRandomSignature tr w flt)) = None \<and>
      fst (fst (GetRandomSignature tr w flt)) \<in> cs_Value ` set (fst (getCachedSignatures tr w))) \<and>
   ((cachedSigs w = [] \<or> (\<forall>n. cacheExpiry w \<le> clock w n)) \<and> faults (repo w) = Some e # fs \<longrightarrow>
      calls (repo (snd (GetRandomSignature tr w flt))) = calls (repo w) @ [CallListActive 1000] \<and>
      cachedSigs (snd (GetRandomSignature tr w flt)) = cachedSigs w \<and>
      cacheExpiry (snd (GetRandomSignature tr w flt)) = cacheExpiry w \<and>
      fst (getCachedSignatures tr w) = cachedSigs w \<and>
      (cachedSigs w \<noteq> [] \<longrightarrow>
         snd (fst (GetRandomSignature tr w flt)) = None \<and>
         fst (fst (GetRandomSignature tr w flt)) \<in> cs_Value ` set (cachedSigs w)))"
proof -
  let ?sigs = "fst (getCachedSignatures tr w)"
  have some: "snd (fst (GetRandomSignature tr w flt)) = None \<and>
      fst (fst (GetRandomSignature tr w flt)) \<in> cs_Value ` set ?sigs" if ne: "?sigs \<noteq> []"
  proof -
    let ?filtered = "filterSignatures ?sigs flt"
    have "?filtered \<noteq> []"
      using ne by (rule filterSignatures_nonempty)
    then have "?filtered ! (rng w (rng_used w) mod length ?filtered) \<in> set ?sigs"
      using filterSignatures_subset [of ?sigs flt] by (simp add: subset_iff)
    then show ?thesis
      using GetRandomSignature_selects [OF refl ne, of flt] by (simp add: Let_def)
  qed
  have empty: "snd (fst (GetRandomSignature tr w flt)) = Some ErrSignaturePoolEmpty" if "?sigs = []"
    using GetRandomSignature_empty [OF that, of flt] by simp
  have iff: "snd (fst (GetRandomSignature tr w flt)) = Some ErrSignaturePoolEmpty \<longleftrightarrow> ?sigs = []"
    using some empty by (cases "?sigs = []") simp_all
  have stale: "calls (repo (snd (GetRandomSignature tr w flt))) = calls (repo w) @ [CallListActive 1000] \<and>
      cachedSigs (snd (GetRandomSignature tr w flt)) = cachedSigs w \<and>
      cacheExpiry (snd (GetRandomSignature tr w flt)) = cacheExpiry w \<and>
      ?sigs = cachedSigs w \<and>
      (cachedSigs w \<noteq> [] \<longrightarrow>
         snd (fst (GetRandomSignature tr w flt)) = None \<and>
         fst (fst (GetRandomSignature tr w flt)) \<in> cs_Value ` set (cachedSigs w))"
    if "cachedSigs w = [] \<or> (\<forall>n. cacheExpiry w \<le> clock w n)" and "faults (repo w) = Some e # fs"
    using reload_fails [OF that, of tr] GetRandomSignature_frame [of tr w flt] some by simp
  from iff some stale show ?thesis by blast
qed


theorem PoolEmpty_iff_empty_snapshot_witness:
  "fst (getCachedSignatures example_translate empty_pool) = [] \<and>
   fst (GetRandomSignature example_translate empty_pool None) = ([], Some ErrSignaturePoolEmpty) \<and>
   fst (getCachedSignatures example_translate example_pool) = [\<lparr>cs_ID = 1, cs_Value = ''SIG-A'', cs_Model = None\<rparr>] \<and>
   snd (fst (GetRandomSignature example_translate example_pool None)) = None \<and>
   faults (repo stale_pool) = [Some Unavailable] \<and>
   cachedSigs stale_pool = [\<lparr>cs_ID = 1, cs_Value = ''SIG-A'', cs_Model = None\<rparr>] \<and>
   calls (repo (snd (GetRandomSignature example_translate stale_pool None))) = [CallListActive 1000] \<and>
   cachedSigs (snd (GetRandomSignature example_translate stale_pool None)) = cachedSigs stale_pool \<and>
   fst (GetRandomSignature example_translate stale_pool None) = (''SIG-A'', None)"
proof -
  have a: "fst (getCachedSignatures example_translate empty_pool) = []"
    by (simp add: pool_defs example_defs)
  have b: "fst (getCachedSignatures example_translate example_pool) = [\<lparr>cs_ID = 1, cs_Value = ''SIG-A'', cs_Model = None\<rparr>]"
    by (simp add: pool_defs example_defs)
  have c: "cachedSigs stale_pool = [] \<or> (\<forall>n. cacheExpiry stale_pool \<le> clock stale_pool n)"
    "faults (repo stale_pool) = Some Unavailable # []"
    "cachedSigs stale_pool = [\<lparr>cs_ID = 1, cs_Value = ''SIG-A'', cs_Model = None\<rparr>]"
    "calls (repo stale_pool) = []"
    by (simp_all add: pool_examples example_defs)
  have d: "fst (fst (GetRandomSignature example_translate empty_pool None)) = []"
    by (simp add: pool_defs example_defs)
  from PoolEmpty_iff_empty_snapshot [of example_translate empty_pool None Unavailable "[]"]
    PoolEmpty_iff_empty_snapshot [of example_translate example_pool None Unavailable "[]"]
    PoolEmpty_iff_empty_snapshot [of example_translate stale_pool None Unavailable "[]"]
  show ?thesis
    using a b c d by (auto simp: prod_eq_iff)
qed

section \<open>Bulk import\<close>

lemma fold_upd_lookup:
  "fold (\<lambda>v m. m(v \<mapsto> f v)) vs m0 k = (if k \<in> set vs then Some (f k) else m0 k)"
  by (induction vs arbitrary: m0) auto

lemma valueToHash_lookup:
  "v \<in> set vs \<Longrightarrow> lookup_string (valueToHash_of sha vs) v = computeSignatureHash sha v"
  by (simp add: lookup_string_def valueToHash_of_def fold_upd_lookup)

lemma existing_lookup:
  "lookup_bool (fold (\<lambda>h m. m(h \<mapsto> True)) hs Map.empty) k = (k \<in> set hs)"
  by (simp add: lookup_bool_def fold_upd_lookup)

lemma round_trip_frame:
  "rows (snd (round_trip d)) = rows d \<and> calls (snd (round_trip d)) = calls d \<and>
   next_id (snd (round_trip d)) = next_id d"
  by (simp add: round_trip_def split: list.splits)

lemma round_trip_calls:
  "fst (round_trip (d\<lparr>calls := cs\<rparr>)) = fst (round_trip d)"
  by (simp add: round_trip_def split: list.splits)

lemma stored_cong: "rows d' = rows d \<Longrightarrow> stored d' h = stored d h"
  by (simp add: stored_def)

lemma ExistsByHashes_frame:
  "rows (snd (repo_ExistsByHashes tr d hs)) = rows d \<and>
   calls (snd (repo_ExistsByHashes tr d hs)) = calls d @ [CallExistsByHashes hs]"
  by (simp add: repo_ExistsByHashes_def Let_def split_beta round_trip_frame split: option.splits)

lemma ExistsByHashes_answered:
  assumes "fst (round_trip d) = None"
  shows "\<exists>m. fst (repo_ExistsByHashes tr d hs) = (Some m, None) \<and>
             (\<forall>h. lookup_bool m h = (h \<in> set hs \<and> stored d h))"
proof (cases "hs = []")
  case True
  then show ?thesis
    by (simp add: repo_ExistsByHashes_def lookup_bool_def)
next
  case False
  with assms show ?thesis
    by (auto simp: repo_ExistsByHashes_def Let_def split_beta existing_lookup stored_def list_ex_iff
        round_trip_frame round_trip_calls)
qed

lemma ExistsByHashes_error:
  "snd (fst (repo_ExistsByHashes tr d hs)) = None \<Longrightarrow> hs \<noteq> [] \<Longrightarrow> fst (round_trip d) = None"
  by (auto simp: repo_ExistsByHashes_def Let_def split_beta round_trip_calls split: option.splits)

lemma filter_new_fold:
  assumes "set us \<subseteq> set vs"
  shows "fold (filter_step (valueToHash_of sha vs) m model source) us (r, acc) =
           (r\<lparr>Duplicated := Duplicated r + int (length (filter (\<lambda>v. lookup_bool m (computeSignatureHash sha v)) us))\<rparr>,
            acc @ map (new_signature sha model source)
                      (filter (\<lambda>v. \<not> lookup_bool m (computeSignatureHash sha v)) us))"
  using assms
proof (induction us arbitrary: r acc)
  case Nil
  then show ?case by simp
next
  case (Cons u us)
  then have u: "lookup_string (valueToHash_of sha vs) u = computeSignatureHash sha u"
    by (simp add: valueToHash_lookup)
  from Cons show ?case
    by (simp add: filter_step_def u Let_def new_signature_def)
qed

lemma filter_new_eq:
  "filter_new (valueToHash_of sha vs) m model source vs r =
     (r\<lparr>Duplicated := Duplicated r + int (length (filter (\<lambda>v. lookup_bool m (computeSignatureHash sha v)) vs))\<rparr>,
      map (new_signature sha model source) (filter (\<lambda>v. \<not> lookup_bool m (computeSignatureHash sha v)) vs))"
  by (simp add: filter_new_def filter_new_fold)

lemma insert_row_ok:
  assumes "insert_row d sg = Inr d'"
  shows "rows d' = rows d @ [\<lparr>r_sig = sg\<lparr>ID := next_id d\<rparr>, deleted_at = None\<rparr>]"
    and "\<not> list_ex (\<lambda>r. Hash (r_sig r) = Hash sg) (rows d)"
    and "faults d' = faults d" and "calls d' = calls d"
  using assms by (auto simp: insert_row_def split: if_splits)

lemma insert_rows_ok:
  assumes "insert_rows d sgs = Inr d'"
  shows "(\<forall>h. stored d' h = (stored d h \<or> h \<in> Hash ` set sgs)) \<and> distinct (map Hash sgs) \<and>
         calls d' = calls d \<and> faults d' = faults d \<and>
         (\<forall>sg\<in>set sgs. \<not> list_ex (\<lambda>r. Hash (r_sig r) = Hash sg) (rows d))"
  using assms
proof (induction sgs arbitrary: d)
  case Nil
  then show ?case by simp
next
  case (Cons sg sgs)
  then obtain d1 where one: "insert_row d sg = Inr d1" and rest: "insert_rows d1 sgs = Inr d'"
    by (auto split: sum.splits)
  note r = insert_row_ok [OF one]
  have st: "stored d1 h = (stored d h \<or> h = Hash sg)" for h
    by (auto simp: stored_def r(1) live_def)
  have ex: "list_ex (\<lambda>r. Hash (r_sig r) = h) (rows d1) = (list_ex (\<lambda>r. Hash (r_sig r) = h) (rows d) \<or> h = Hash sg)" for h
    by (auto simp: r(1))
  from Cons.IH [OF rest] show ?case
    using st ex r by (auto simp: list_ex_iff)
qed

lemma BatchCreate_ok:
  assumes "repo_BatchCreate tr d sgs = ((n, None), d')" and "sgs \<noteq> []"
  shows "n = int (length sgs)" and "\<forall>h. stored d' h = (stored d h \<or> h \<in> Hash ` set sgs)"
    and "distinct (map Hash sgs)"
proof -
  let ?d1 = "snd (round_trip (d\<lparr>calls := calls d @ [CallBatchCreate sgs]\<rparr>))"
  from assms have i: "insert_rows ?d1 sgs = Inr d'" and n: "n = int (length sgs)"
    by (auto simp: repo_BatchCreate_def Let_def split_beta split: option.splits sum.splits)
  have "stored ?d1 h = stored d h" for h
    by (simp add: stored_def round_trip_frame)
  with insert_rows_ok [OF i] n
  show "n = int (length sgs)" and "\<forall>h. stored d' h = (stored d h \<or> h \<in> Hash ` set sgs)"
    and "distinct (map Hash sgs)"
    by auto
qed

lemma BatchCreate_fails:
  assumes "\<not> distinct (map Hash sgs)"
  shows "\<exists>e. fst (repo_BatchCreate tr d sgs) = (0, Some (tr e))"
    and "rows (snd (repo_BatchCreate tr d sgs)) = rows d"
    and "calls (snd (repo_BatchCreate tr d sgs)) = calls d @ [CallBatchCreate sgs]"
proof -
  let ?d1 = "snd (round_trip (d\<lparr>calls := calls d @ [CallBatchCreate sgs]\<rparr>))"
  have ne: "sgs \<noteq> []" using assms by auto
  have "\<exists>e. insert_rows ?d1 sgs = Inl e"
    using insert_rows_ok [of ?d1 sgs] assms by (cases "insert_rows ?d1 sgs") auto
  then show "\<exists>e. fst (repo_BatchCreate tr d sgs) = (0, Some (tr e))"
    and "rows (snd (repo_BatchCreate tr d sgs)) = rows d"
    and "calls (snd (repo_BatchCreate tr d sgs)) = calls d @ [CallBatchCreate sgs]"
    using ne
    by (auto simp: repo_BatchCreate_def Let_def split_beta round_trip_frame split: option.splits)
qed

lemma BatchImport_answered:
  assumes "vs \<noteq> []" and "fst (round_trip d) = None"
  shows "BatchImport sha tr d vs model src =
    (let source = (if src = [] then ''imported'' else src);
         d1 = snd (repo_ExistsByHashes tr d (map (computeSignatureHash sha) vs));
         new = map (new_signature sha model source) (filter (\<lambda>v. \<not> stored d (computeSignatureHash sha v)) vs);
         result = \<lparr>Total = int (length vs), Imported = 0,
                   Duplicated = int (length (filter (\<lambda>v. stored d (computeSignatureHash sha v)) vs)),
                   Failed = 0\<rparr>
     in if new = [] then ((Some result, None), d1)
        else (case snd (fst (repo_BatchCreate tr d1 new)) of
                Some e \<Rightarrow> ((Some (result\<lparr>Failed := int (length new)\<rparr>), Some e), snd (repo_BatchCreate tr d1 new))
              | None \<Rightarrow> ((Some (result\<lparr>Imported := fst (fst (repo_BatchCreate tr d1 new))\<rparr>), None),
                         snd (repo_BatchCreate tr d1 new))))"
proof -
  let ?hs = "map (computeSignatureHash sha) vs"
  from ExistsByHashes_answered [OF assms(2), of tr ?hs]
  obtain m where m: "fst (repo_ExistsByHashes tr d ?hs) = (Some m, None)"
    and l: "\<forall>h. lookup_bool m h = (h \<in> set ?hs \<and> stored d h)"
    by blast
  have f1: "filter (\<lambda>v. lookup_bool m (computeSignatureHash sha v)) vs =
            filter (\<lambda>v. stored d (computeSignatureHash sha v)) vs"
    by (rule filter_cong) (auto simp: l)
  have f2: "filter (\<lambda>v. \<not> lookup_bool m (computeSignatureHash sha v)) vs =
            filter (\<lambda>v. \<not> stored d (computeSignatureHash sha v)) vs"
    by (rule filter_cong) (auto simp: l)
  show ?thesis
    using assms(1) m
    by (simp add: BatchImport_def Let_def split_beta filter_new_eq f1 f2 split: option.splits)
qed


lemma count_list_filter:
  "count_list (filter P xs) x = (if P x then count_list xs x else 0)"
  by (induction xs) auto

lemma count_list_map_Value:
  "count_list (map Value (map (new_signature sha model source) xs)) x = count_list xs x"
  by (induction xs) (auto simp: new_signature_def)

lemma count_list_twice:
  assumes "i < j" and "j < length xs" and "xs ! i = xs ! j"
  shows "2 \<le> count_list xs (xs ! i)"
proof -
  have "xs = take j xs @ xs ! j # drop (Suc j) xs"
    using assms(2) by (rule id_take_nth_drop)
  then have c: "count_list xs (xs ! i) =
                  count_list (take j xs) (xs ! i) + count_list (xs ! j # drop (Suc j) xs) (xs ! i)"
    by (metis count_list_append)
  have "xs ! i \<in> set (take j xs)"
    using assms(1,2) by (auto simp: in_set_conv_nth intro!: exI [of _ i])
  then have "count_list (take j xs) (xs ! i) \<noteq> 0"
    by (simp add: count_list_0_iff)
  with c assms(3) show ?thesis by simp
qed

lemma distinct_count_le_1: "distinct xs \<Longrightarrow> count_list xs x \<le> 1"
  by (induction xs) auto

text \<open>
  Claim C8. After a \<^verbatim>\<open>BatchImport\<close> of a list of values that returned no error, a second
  \<^verbatim>\<open>BatchImport\<close> of the same values whose existence query is answered by the database
  returns the result with \<^verbatim>\<open>imported = 0\<close>, \<^verbatim>\<open>duplicated\<close> the length of the list and
  \<^verbatim>\<open>failed = 0\<close>, with no error; it leaves the rows as they were and calls the repository
  for the existence query only (not at all for the empty list), so \<^verbatim>\<open>BatchCreate\<close> is not
  called.
\<close>

theorem BatchImport_twice:
  assumes "BatchImport sha tr d vs model src = ((r1, None), d1)"
    and "fst (round_trip d1) = None"
  shows "fst (BatchImport sha tr d1 vs model' source') =
           (Some \<lparr>Total = int (length vs), Imported = 0, Duplicated = int (length vs), Failed = 0\<rparr>, None) \<and>
         rows (snd (BatchImport sha tr d1 vs model' source')) = rows d1 \<and>
         calls (snd (BatchImport sha tr d1 vs model' source')) =
           calls d1 @ (if vs = [] then [] else [CallExistsByHashes (map (computeSignatureHash sha) vs)])"
proof (cases "vs = []")
  case True
  then show ?thesis by (simp add: BatchImport_def)
next
  case False
  let ?hs = "map (computeSignatureHash sha) vs"
  let ?source = "if src = [] then ''imported'' else src"
  let ?d0 = "snd (repo_ExistsByHashes tr d ?hs)"
  let ?new = "map (new_signature sha model ?source) (filter (\<lambda>v. \<not> stored d (computeSignatureHash sha v)) vs)"
  have "snd (fst (repo_ExistsByHashes tr d ?hs)) = None"
    using assms(1) False
    by (auto simp: BatchImport_def Let_def split_beta split: option.splits if_splits)
  then have rt: "fst (round_trip d) = None"
    using False by (intro ExistsByHashes_error [of tr d ?hs]) simp_all
  note first = BatchImport_answered [OF False rt, of sha tr model src]
  have all: "stored d1 (computeSignatureHash sha v)" if "v \<in> set vs" for v
  proof (cases "?new = []")
    case True
    then have "d1 = ?d0"
      using first assms(1) by (simp add: Let_def)
    moreover have "stored d (computeSignatureHash sha v)"
      using True that by (auto simp: filter_empty_conv)
    ultimately show ?thesis
      by (simp add: stored_cong [of ?d0 d] ExistsByHashes_frame)
  next
    case ne: False
    then have ok: "repo_BatchCreate tr ?d0 ?new = ((fst (fst (repo_BatchCreate tr ?d0 ?new)), None), d1)"
      using first assms(1) by (auto simp: Let_def prod_eq_iff split: option.splits)
    have "stored d1 h = (stored d h \<or> h \<in> Hash ` set ?new)" for h
      using BatchCreate_ok(2) [OF ok ne] by (simp add: stored_cong [of ?d0 d] ExistsByHashes_frame)
    then show ?thesis
      using that by (cases "stored d (computeSignatureHash sha v)") (auto simp: new_signature_def image_iff)
  qed
  then have none: "filter (\<lambda>v. \<not> stored d1 (computeSignatureHash sha v)) vs = []"
    and every: "filter (\<lambda>v. stored d1 (computeSignatureHash sha v)) vs = vs"
    by (simp_all add: filter_empty_conv filter_id_conv)
  show ?thesis
    using BatchImport_answered [OF False assms(2), of sha tr model' source'] False
    by (simp add: Let_def none every ExistsByHashes_frame)
qed

theorem BatchImport_twice_witness:
  "fst (BatchImport example_sha example_translate empty_db [''X'', ''Y''] None []) =
     (Some \<lparr>Total = 2, Imported = 2, Duplicated = 0, Failed = 0\<rparr>, None) \<and>
   fst (round_trip (snd (BatchImport example_sha example_translate empty_db [''X'', ''Y''] None []))) = None \<and>
   fst (BatchImport example_sha example_translate
          (snd (BatchImport example_sha example_translate empty_db [''X'', ''Y''] None []))
          [''X'', ''Y''] None []) =
     (Some \<lparr>Total = 2, Imported = 0, Duplicated = 2, Failed = 0\<rparr>, None) \<and>
   calls (snd (BatchImport example_sha example_translate
                 (snd (BatchImport example_sha example_translate empty_db [''X'', ''Y''] None []))
                 [''X'', ''Y''] None [])) =
     [CallExistsByHashes [''58'', ''59''],
      CallBatchCreate [new_signature example_sha None ''imported'' ''X'',
                       new_signature example_sha None ''imported'' ''Y''],
      CallExistsByHashes [''58'', ''59'']]"
proof -
  let ?first = "BatchImport example_sha example_translate empty_db [''X'', ''Y''] None []"
  have a: "fst ?first = (Some \<lparr>Total = 2, Imported = 2, Duplicated = 0, Failed = 0\<rparr>, None)"
    by (simp add: service_defs Let_def)
  have b: "fst (round_trip (snd ?first)) = None"
    by (simp add: service_defs Let_def)
  have c: "calls (snd ?first) =
     [CallExistsByHashes [''58'', ''59''],
      CallBatchCreate [new_signature example_sha None ''imported'' ''X'',
                       new_signature example_sha None ''imported'' ''Y'']]"
    by (simp add: service_defs Let_def)
  have h: "map (computeSignatureHash example_sha) [''X'', ''Y''] = [''58'', ''59'']"
    by (simp add: service_defs)
  have "?first = ((Some \<lparr>Total = 2, Imported = 2, Duplicated = 0, Failed = 0\<rparr>, None), snd ?first)"
    using a by (simp add: prod_eq_iff)
  from BatchImport_twice [OF this b, of None "[]"] show ?thesis
    using a b c h by simp
qed

text \<open>
  Claim C9. \<^verbatim>\<open>BatchImport\<close> does not deduplicate within a batch. When a value stands at two
  positions of the input and its hash is not stored, and the existence query is answered,
  the list passed to \<^verbatim>\<open>BatchCreate\<close> holds a signature for every occurrence of the value
  (at least two), and \<^verbatim>\<open>duplicated\<close> counts only the values whose hash is stored. The
  outcome is then the database's: \<^verbatim>\<open>BatchCreate\<close> fails, nothing is inserted, and the
  result reports \<^verbatim>\<open>failed\<close> as the number of new signatures and \<^verbatim>\<open>imported = 0\<close>, together
  with the error.
\<close>

theorem BatchImport_keeps_in_batch_duplicates:
  assumes "i < j" and "j < length vs" and "vs ! i = vs ! j"
    and "\<not> stored d (computeSignatureHash sha (vs ! i))"
    and "fst (round_trip d) = None"
  shows "(let source = (if src = [] then ''imported'' else src);
              new = map (new_signature sha model source)
                        (filter (\<lambda>v. \<not> stored d (computeSignatureHash sha v)) vs)
          in calls (snd (BatchImport sha tr d vs model src)) =
               calls d @ [CallExistsByHashes (map (computeSignatureHash sha) vs), CallBatchCreate new] \<and>
             count_list (map Value new) (vs ! i) = count_list vs (vs ! i) \<and>
             2 \<le> count_list vs (vs ! i) \<and>
             (\<exists>e. fst (BatchImport sha tr d vs model src) =
                    (Some \<lparr>Total = int (length vs), Imported = 0,
                           Duplicated = int (length (filter (\<lambda>v. stored d (computeSignatureHash sha v)) vs)),
                           Failed = int (length new)\<rparr>,
                     Some (tr e))) \<and>
             rows (snd (BatchImport sha tr d vs model src)) = rows d)"
proof -
  let ?hs = "map (computeSignatureHash sha) vs"
  let ?source = "if src = [] then ''imported'' else src"
  let ?d0 = "snd (repo_ExistsByHashes tr d ?hs)"
  let ?new = "map (new_signature sha model ?source) (filter (\<lambda>v. \<not> stored d (computeSignatureHash sha v)) vs)"
  have ne: "vs \<noteq> []" using assms(2) by auto
  have two: "2 \<le> count_list vs (vs ! i)"
    using assms(1-3) by (rule count_list_twice)
  have cnt: "count_list (map Value ?new) (vs ! i) = count_list vs (vs ! i)"
    using assms(4) by (simp add: count_list_map_Value count_list_filter del: map_map)
  have "\<not> distinct (map Value ?new)"
    using distinct_count_le_1 [of "map Value ?new" "vs ! i"] cnt two by auto
  moreover have "map Value ?new = filter (\<lambda>v. \<not> stored d (computeSignatureHash sha v)) vs"
    by (simp add: new_signature_def comp_def)
  moreover have "map Hash ?new = map (computeSignatureHash sha) (filter (\<lambda>v. \<not> stored d (computeSignatureHash sha v)) vs)"
    by (simp add: new_signature_def comp_def)
  ultimately have nd: "\<not> distinct (map Hash ?new)"
    by (metis distinct_map)
  then have nn: "?new \<noteq> []" by auto
  from BatchCreate_fails [OF nd, of tr ?d0]
  obtain e where e: "fst (repo_BatchCreate tr ?d0 ?new) = (0, Some (tr e))"
    and r: "rows (snd (repo_BatchCreate tr ?d0 ?new)) = rows ?d0"
    and c: "calls (snd (repo_BatchCreate tr ?d0 ?new)) = calls ?d0 @ [CallBatchCreate ?new]"
    by blast
  have res: "BatchImport sha tr d vs model src =
      ((Some \<lparr>Total = int (length vs), Imported = 0,
              Duplicated = int (length (filter (\<lambda>v. stored d (computeSignatureHash sha v)) vs)),
              Failed = int (length ?new)\<rparr>, Some (tr e)),
       snd (repo_BatchCreate tr ?d0 ?new))"
    using BatchImport_answered [OF ne assms(5), of sha tr model src] nn e
    by (simp add: Let_def)
  show ?thesis
    unfolding Let_def using res r c cnt two by (auto simp: ExistsByHashes_frame)
qed


theorem BatchImport_keeps_in_batch_duplicates_witness:
  "\<not> stored x_db (computeSignatureHash example_sha ''Y'') \<and>
   fst (round_trip x_db) = None \<and>
   fst (BatchImport example_sha example_translate x_db [''X'', ''Y'', ''Y''] None ''imported'') =
     (Some \<lparr>Total = 3, Imported = 0, Duplicated = 1, Failed = 2\<rparr>, Some (ErrOther UniqueViolation)) \<and>
   calls (snd (BatchImport example_sha example_translate x_db [''X'', ''Y'', ''Y''] None ''imported'')) =
     [CallExistsByHashes [''58'', ''59'', ''59''],
      CallBatchCreate [new_signature example_sha None ''imported'' ''Y'',
                       new_signature example_sha None ''imported'' ''Y'']] \<and>
   rows (snd (BatchImport example_sha example_translate x_db [''X'', ''Y'', ''Y''] None ''imported'')) = rows x_db"
proof -
  let ?vs = "[''X'', ''Y'', ''Y'']"
  have a: "\<not> stored x_db (computeSignatureHash example_sha (?vs ! 1))"
    by (simp add: service_defs)
  have b: "fst (round_trip x_db) = None"
    by (simp add: service_defs)
  have c: "fst (BatchImport example_sha example_translate x_db ?vs None ''imported'') =
     (Some \<lparr>Total = 3, Imported = 0, Duplicated = 1, Failed = 2\<rparr>, Some (ErrOther UniqueViolation))"
    by (simp add: service_defs Let_def)
  have h: "map (computeSignatureHash example_sha) ?vs = [''58'', ''59'', ''59'']"
    "filter (\<lambda>v. \<not> stored x_db (computeSignatureHash example_sha v)) ?vs = [''Y'', ''Y'']"
    by (simp_all add: service_defs)
  have i: "(1::nat) < 2" "(2::nat) < length ?vs" "?vs ! 1 = ?vs ! 2"
    by simp_all
  have k: "calls x_db = []"
    by (simp add: service_defs)
  from BatchImport_keeps_in_batch_duplicates
         [OF i a b, where src = "''imported''" and model = None and tr = example_translate]
  show ?thesis
    using a b c h k by (simp add: Let_def)
qed


section \<open>Creating one signature\<close>

text \<open>
  When the existence query is answered and the hash is stored, \<^verbatim>\<open>Create\<close> returns
  \<^verbatim>\<open>ErrSignatureDuplicate\<close> and leaves the rows as they were; when no round trip fails and
  no row at all holds the hash, it appends one row with the hash, the source
  \<^verbatim>\<open>manual\<close>, the status \<^verbatim>\<open>active\<close> and the use count 0.
\<close>

lemma Create_duplicate:
  assumes "fst (round_trip d) = None" and "stored d (computeSignatureHash sha v)"
  shows "fst (Create sha tr d v model notes) = (None, Some ErrSignatureDuplicate)"
    and "rows (snd (Create sha tr d v model notes)) = rows d"
  using assms
  by (simp_all add: Create_def repo_ExistsByHash_def Let_def split_beta stored_def round_trip_frame
      round_trip_calls)

lemma Create_persists:
  assumes "faults d = []"
    and "\<not> list_ex (\<lambda>r. Hash (r_sig r) = computeSignatureHash sha v) (rows d)"
  shows "fst (Create sha tr d v model notes) =
           (Some \<lparr>ID = next_id d, Value = v, Hash = computeSignatureHash sha v, Model = model,
                  Source = ''manual'', Status = ''active'', UseCount = 0, Notes = notes,
                  CollectedFromAccountID = None\<rparr>, None)"
    and "rows (snd (Create sha tr d v model notes)) =
           rows d @ [\<lparr>r_sig = \<lparr>ID = next_id d, Value = v, Hash = computeSignatureHash sha v, Model = model,
                               Source = ''manual'', Status = ''active'', UseCount = 0, Notes = notes,
                               CollectedFromAccountID = None\<rparr>,
                      deleted_at = None\<rparr>]"
  using assms
  by (auto simp: Create_def repo_ExistsByHash_def repo_Create_def insert_row_def Let_def
      round_trip_def list_ex_iff)

text \<open>
  Claim C6 at the input where the code departs from it. \<^verbatim>\<open>Create\<close> of the value \<^verbatim>\<open>X\<close> on
  the empty table persists it with id 1; \<^verbatim>\<open>Delete\<close> of id 1 marks the row deleted, after
  which no signature that is not deleted has the hash of \<^verbatim>\<open>X\<close>. A second \<^verbatim>\<open>Create\<close> of
  \<^verbatim>\<open>X\<close> passes the existence check, which looks at rows that are not deleted, and fails
  in the insert on the unique constraint of the column, which covers deleted rows as
  well: it returns the translated driver error and persists nothing.
\<close>

theorem Create_after_soft_delete:
  "(let first = Create sha tr empty_db ''X'' None None;
        deleted = Delete tr (snd first) 100 1;
        again = Create sha tr (snd deleted) ''X'' None None
    in fst first =
         (Some \<lparr>ID = 1, Value = ''X'', Hash = computeSignatureHash sha ''X'', Model = None,
                Source = ''manual'', Status = ''active'', UseCount = 0, Notes = None,
                CollectedFromAccountID = None\<rparr>, None) \<and>
       fst deleted = None \<and>
       faults (snd deleted) = [] \<and>
       \<not> stored (snd deleted) (computeSignatureHash sha ''X'') \<and>
       fst again = (None, Some (tr UniqueViolation)) \<and>
       rows (snd again) = rows (snd deleted))"
  by (simp add: Create_def repo_ExistsByHash_def repo_Create_def insert_row_def Let_def
      round_trip_def Delete_def repo_Delete_def empty_db_def live_def stored_def)

end
